theory Spec2Isabelle
  imports Complex_Main "HOL-Library.AList"
begin

section \<open>Event-driven backtester: shallow embedding\<close>

text \<open>
  The theory embeds the event loop of the backtester and the four subsystems it couples:
  the bar feed (loader.py), the risk manager (manager.py), the simulated broker
  (broker.py), the portfolio ledger (portfolio.py) and the engine itself (engine.py),
  with the shared event types of core.py.

  Conventions of the embedding.
  \<^item> A \<^verbatim>\<open>pd.Timestamp\<close> is an \<^typ>\<open>int\<close> (its nanosecond value); only the order of
    timestamps is used by the code.
  \<^item> Python floats are idealised as \<^typ>\<open>real\<close>. The one special float value the code
    tests for, NaN as returned by \<^verbatim>\<open>compute_atr\<close>, is \<open>None\<close> of a \<^typ>\<open>real option\<close>.
  \<^item> A Python \<^verbatim>\<open>dict\<close> whose iteration order is observable (the feed's data, the
    portfolio's positions, the bars of one timestamp) is an association list with
    distinct keys: \<^const>\<open>AList.update\<close> replaces the value of a present key in place and
    appends an absent key, as assignment to a \<^verbatim>\<open>dict\<close> does. A \<^verbatim>\<open>dict\<close> that is only
    looked up is a map.
  \<^item> A \<^verbatim>\<open>pd.DataFrame\<close> of OHLCV rows is the list of its rows in index order.
  \<^item> Exceptions are values of \<open>py_error\<close>, returned as \<open>Inl\<close>.
\<close>

subsection \<open>core.py: enums and events\<close>

datatype order_side = BUY | SELL

datatype order_type = MARKET | LIMIT

datatype order_status = PENDING | FILLED | CANCELLED | REJECTED

datatype signal_direction = LONG | SHORT | FLAT

datatype py_error = KeyError | ZeroDivisionError | TypeError

type_synonym timestamp = int

type_synonym symbol = string

record market_event =
  bar_timestamp :: timestamp
  bar_symbol :: symbol
  bar_open :: real
  bar_high :: real
  bar_low :: real
  bar_close :: real
  bar_volume :: real

record signal_event =
  sig_timestamp :: timestamp
  sig_symbol :: symbol
  sig_strategy_id :: string
  sig_direction :: signal_direction
  sig_strength :: real
  sig_stop_loss :: "real option"
  sig_take_profit :: "real option"

record order_event =
  ord_timestamp :: timestamp
  ord_symbol :: symbol
  ord_order_type :: order_type
  ord_side :: order_side
  ord_quantity :: real
  ord_limit_price :: "real option"
  ord_stop_loss :: "real option"
  ord_take_profit :: "real option"
  ord_order_id :: string
  ord_status :: order_status

record fill_event =
  fill_timestamp :: timestamp
  fill_symbol :: symbol
  fill_side :: order_side
  fill_quantity :: real
  fill_price :: real
  fill_commission :: real
  fill_slippage :: real
  fill_order_id :: string
  fill_strategy_id :: string

text \<open>\<^verbatim>\<open>OrderSide.value\<close>: the string stored in the trade log.\<close>

fun side_value :: "order_side \<Rightarrow> string" where
  "side_value BUY = ''BUY''"
| "side_value SELL = ''SELL''"

subsubsection \<open>The order-id counter\<close>

text \<open>
  \<^verbatim>\<open>_order_counter\<close> is a module-level variable: it is created once per process, and
  nothing in the repository assigns to it except \<^verbatim>\<open>_next_id\<close>. The embedding threads
  its value through every function that constructs an \<^verbatim>\<open>OrderEvent\<close>.
  \<^verbatim>\<open>f"ORD-{n:06d}"\<close> prints \<open>n\<close> in decimal, padded with zeros on the left to at
  least six characters.
\<close>

definition digit_char :: "nat \<Rightarrow> char" where
  "digit_char d = ''0123456789'' ! d"

fun digits :: "nat \<Rightarrow> string" where
  "digits n = (if n < 10 then [digit_char n] else digits (n div 10) @ [digit_char (n mod 10)])"

declare digits.simps [simp del]

definition zfill6 :: "string \<Rightarrow> string" where
  "zfill6 s = replicate (6 - length s) (CHR ''0'') @ s"

definition format_id :: "nat \<Rightarrow> string" where
  "format_id n = ''ORD-'' @ zfill6 (digits n)"

definition next_id :: "nat \<Rightarrow> string \<times> nat" where
  "next_id counter = (format_id (counter + 1), counter + 1)"

text \<open>
  \<^verbatim>\<open>OrderEvent(...)\<close> as the risk manager calls it: the fields it does not pass take
  their defaults, the id comes from the counter.
\<close>

definition new_order ::
  "nat \<Rightarrow> timestamp \<Rightarrow> symbol \<Rightarrow> order_side \<Rightarrow> real \<Rightarrow> real option \<Rightarrow> real option
     \<Rightarrow> order_event \<times> nat" where
  "new_order counter ts symb side qty sl tp =
     (let (oid, counter') = next_id counter
      in (\<lparr>ord_timestamp = ts, ord_symbol = symb, ord_order_type = MARKET, ord_side = side,
            ord_quantity = qty, ord_limit_price = None, ord_stop_loss = sl,
            ord_take_profit = tp, ord_order_id = oid, ord_status = PENDING\<rparr>, counter'))"

subsection \<open>loader.py: the bar feed\<close>

record ohlcv_row =
  row_ts :: timestamp
  row_open :: real
  row_high :: real
  row_low :: real
  row_close :: real
  row_volume :: real

type_synonym dataframe = "ohlcv_row list"

type_synonym feed = "(symbol \<times> dataframe) list"

type_synonym bars = "(symbol \<times> market_event) list"

text \<open>
  \<^verbatim>\<open>seq[start:]\<close>, the slice of Python and of \<^verbatim>\<open>DataFrame.iloc\<close>: a negative start
  counts from the end, and a start outside the sequence is clipped to it.
\<close>

definition slice_from :: "int \<Rightarrow> 'a list \<Rightarrow> 'a list" where
  "slice_from start xs =
     (let len = int (length xs);
          s = (if start < 0 then max 0 (len + start) else min start len)
      in drop (nat s) xs)"

text \<open>\<^verbatim>\<open>BarFeed.history\<close>. \<^verbatim>\<open>self._data[symbol]\<close> raises \<^verbatim>\<open>KeyError\<close> for an unknown symbol.\<close>

definition history :: "feed \<Rightarrow> symbol \<Rightarrow> timestamp \<Rightarrow> int option \<Rightarrow> py_error + dataframe" where
  "history data symb up_to n =
     (case map_of data symb of
        None \<Rightarrow> Inl KeyError
      | Some df \<Rightarrow>
          (let hist = filter (\<lambda>r. row_ts r \<le> up_to) df
           in Inr (case n of None \<Rightarrow> hist | Some k \<Rightarrow> slice_from (- k) hist)))"

text \<open>
  \<^verbatim>\<open>BarFeed.__init__\<close> builds the master index, the sorted union of the symbols'
  timestamps; \<^verbatim>\<open>BarFeed.__iter__\<close> yields, for each of them, the bars of the symbols
  that have a row there.
\<close>

definition feed_index :: "feed \<Rightarrow> timestamp list" where
  "feed_index data = sort (remdups (concat (map (\<lambda>(symb, df). map row_ts df) data)))"

definition row_event :: "timestamp \<Rightarrow> symbol \<Rightarrow> ohlcv_row \<Rightarrow> market_event" where
  "row_event ts symb row =
     \<lparr>bar_timestamp = ts, bar_symbol = symb, bar_open = row_open row, bar_high = row_high row,
      bar_low = row_low row, bar_close = row_close row, bar_volume = row_volume row\<rparr>"

fun events_at :: "timestamp \<Rightarrow> feed \<Rightarrow> bars" where
  "events_at ts [] = []"
| "events_at ts ((symb, df) # rest) =
     (case find (\<lambda>r. row_ts r = ts) df of
        None \<Rightarrow> events_at ts rest
      | Some row \<Rightarrow> (symb, row_event ts symb row) # events_at ts rest)"

definition feed_iter :: "feed \<Rightarrow> (timestamp \<times> bars) list" where
  "feed_iter data =
     filter (\<lambda>(ts, events). events \<noteq> []) (map (\<lambda>ts. (ts, events_at ts data)) (feed_index data))"

subsection \<open>manager.py: ATR, position sizers, risk manager\<close>

text \<open>
  \<^verbatim>\<open>compute_atr\<close>. The three arrays handed to \<^verbatim>\<open>np.maximum.reduce\<close> pair each row
  but the first with the close of the row before it. \<^verbatim>\<open>np.mean\<close> of an empty array
  is NaN.
\<close>

fun true_ranges :: "dataframe \<Rightarrow> real list" where
  "true_ranges (prev # row # rest) =
     max (max (row_high row - row_low row) \<bar>row_high row - row_close prev\<bar>)
         \<bar>row_low row - row_close prev\<bar>
       # true_ranges (row # rest)"
| "true_ranges _ = []"

definition np_mean :: "real list \<Rightarrow> real option" where
  "np_mean xs = (if xs = [] then None else Some (sum_list xs / real (length xs)))"

definition compute_atr :: "dataframe \<Rightarrow> int \<Rightarrow> real option" where
  "compute_atr df period =
     (if int (length df) < period + 1 then None
      else np_mean (slice_from (- period) (true_ranges df)))"

record atr_position_sizer =
  risk_pct :: real
  atr_period :: int
  atr_multiplier :: real
  max_position_pct :: real

datatype sizer = ATRPositionSizer atr_position_sizer | FixedFractionSizer real

text \<open>
  \<^verbatim>\<open>ATRPositionSizer.size\<close>. The quotient \<^verbatim>\<open>dollar_risk / stop_distance\<close> divides by
  zero when \<^verbatim>\<open>atr_multiplier\<close> is 0; on Python floats that raises
  \<^verbatim>\<open>ZeroDivisionError\<close>, which is the branch modelled. The division by \<^verbatim>\<open>price\<close> is
  guarded by the first test.
\<close>

definition atr_size :: "atr_position_sizer \<Rightarrow> real \<Rightarrow> real \<Rightarrow> real option \<Rightarrow> real \<Rightarrow> py_error + real" where
  "atr_size sz equity price atr signal_strength =
     (case atr of
        None \<Rightarrow> Inr 0
      | Some a \<Rightarrow>
          if a \<le> 0 \<or> price \<le> 0 then Inr 0
          else
            (let stop_distance = a * atr_multiplier sz;
                 dollar_risk = equity * risk_pct sz * signal_strength
             in if stop_distance = 0 then Inl ZeroDivisionError
                else
                  (let raw_qty = dollar_risk / stop_distance;
                       max_qty = (equity * max_position_pct sz) / price;
                       qty = min raw_qty max_qty
                   in Inr (max 0 (of_int \<lfloor>qty\<rfloor>)))))"

definition fixed_fraction_size :: "real \<Rightarrow> real \<Rightarrow> real \<Rightarrow> real option \<Rightarrow> real \<Rightarrow> py_error + real" where
  "fixed_fraction_size fraction equity price atr signal_strength =
     (if price \<le> 0 then Inr 0
      else Inr (max 0 (of_int \<lfloor>(equity * fraction * signal_strength) / price\<rfloor>)))"

fun sizer_size :: "sizer \<Rightarrow> real \<Rightarrow> real \<Rightarrow> real option \<Rightarrow> real \<Rightarrow> py_error + real" where
  "sizer_size (ATRPositionSizer sz) equity price atr strength = atr_size sz equity price atr strength"
| "sizer_size (FixedFractionSizer fraction) equity price atr strength =
     fixed_fraction_size fraction equity price atr strength"

record risk_manager =
  rm_sizer :: sizer
  rm_atr_period :: int
  rm_stop_atr_mult :: real
  rm_tp_atr_mult :: real
  rm_max_open_positions :: int
  rm_allow_short :: bool

text \<open>
  Python's \<^verbatim>\<open>a or b\<close> on an optional float: \<open>b\<close> when \<open>a\<close> is \<^verbatim>\<open>None\<close> or \<open>0.0\<close>.
  In \<^verbatim>\<open>if a and low <= a\<close> the same two values of \<open>a\<close> make the test false.
\<close>

definition py_or :: "real option \<Rightarrow> real option \<Rightarrow> real option" where
  "py_or a b = (case a of None \<Rightarrow> b | Some v \<Rightarrow> if v = 0 then b else Some v)"

definition open_longs :: "(symbol \<times> real) list \<Rightarrow> int" where
  "open_longs open_positions = int (length (filter (\<lambda>(s, q). q > 0) open_positions))"

text \<open>
  The body of the loop of \<^verbatim>\<open>RiskManager.process_signals\<close> for one signal: the orders
  it appends (none when it reaches a \<^verbatim>\<open>continue\<close>) and the counter afterwards.
\<close>

definition process_signal ::
  "risk_manager \<Rightarrow> signal_event \<Rightarrow> bars \<Rightarrow> feed \<Rightarrow> real \<Rightarrow> (symbol \<times> real) list \<Rightarrow> nat
     \<Rightarrow> py_error + (order_event list \<times> nat)" where
  "process_signal rm sg market_events data equity open_positions counter =
     (case map_of market_events (sig_symbol sg) of
        None \<Rightarrow> Inr ([], counter)
      | Some bar \<Rightarrow>
          (let price = bar_close bar
           in case history data (sig_symbol sg) (sig_timestamp sg) (Some (rm_atr_period rm + 5)) of
                Inl err \<Rightarrow> Inl err
              | Inr hist \<Rightarrow>
                  (let atr = compute_atr hist (rm_atr_period rm);
                       held_qty = (case map_of open_positions (sig_symbol sg) of
                                     None \<Rightarrow> 0 | Some q \<Rightarrow> q)
                   in case sig_direction sg of
                        LONG \<Rightarrow>
                          if held_qty > 0 then Inr ([], counter)
                          else if \<not> rm_allow_short rm
                                  \<and> open_longs open_positions \<ge> rm_max_open_positions rm
                          then Inr ([], counter)
                          else
                            (case sizer_size (rm_sizer rm) equity price atr (sig_strength sg) of
                               Inl err \<Rightarrow> Inl err
                             | Inr qty \<Rightarrow>
                                 if qty \<le> 0 then Inr ([], counter)
                                 else
                                   (let sl = py_or (sig_stop_loss sg)
                                               (map_option (\<lambda>a. price - a * rm_stop_atr_mult rm) atr);
                                        tp = py_or (sig_take_profit sg)
                                               (map_option (\<lambda>a. price + a * rm_tp_atr_mult rm) atr);
                                        (ord, counter') =
                                           new_order counter (sig_timestamp sg) (sig_symbol sg) BUY qty sl tp
                                    in Inr ([ord], counter')))
                      | FLAT \<Rightarrow>
                          if held_qty > 0 then
                            (let (ord, counter') =
                                   new_order counter (sig_timestamp sg) (sig_symbol sg) SELL held_qty None None
                             in Inr ([ord], counter'))
                          else if held_qty < 0 \<and> rm_allow_short rm then
                            (let (ord, counter') =
                                   new_order counter (sig_timestamp sg) (sig_symbol sg) BUY \<bar>held_qty\<bar> None None
                             in Inr ([ord], counter'))
                          else Inr ([], counter)
                      | SHORT \<Rightarrow>
                          if rm_allow_short rm then
                            (if held_qty < 0 then Inr ([], counter)
                             else
                               (case sizer_size (rm_sizer rm) equity price atr (sig_strength sg) of
                                  Inl err \<Rightarrow> Inl err
                                | Inr qty \<Rightarrow>
                                    if qty \<le> 0 then Inr ([], counter)
                                    else
                                      (let (ord, counter') =
                                             new_order counter (sig_timestamp sg) (sig_symbol sg) SELL qty None None
                                       in Inr ([ord], counter'))))
                          else Inr ([], counter))))"

text \<open>\<^verbatim>\<open>RiskManager.process_signals\<close>: the loop over the signals; an exception ends it.\<close>

fun process_signals ::
  "risk_manager \<Rightarrow> signal_event list \<Rightarrow> bars \<Rightarrow> feed \<Rightarrow> real \<Rightarrow> (symbol \<times> real) list \<Rightarrow> nat
     \<Rightarrow> py_error + (order_event list \<times> nat)" where
  "process_signals rm [] market_events data equity open_positions counter = Inr ([], counter)"
| "process_signals rm (sg # sgs) market_events data equity open_positions counter =
     (case process_signal rm sg market_events data equity open_positions counter of
        Inl err \<Rightarrow> Inl err
      | Inr (ords, counter') \<Rightarrow>
          (case process_signals rm sgs market_events data equity open_positions counter' of
             Inl err \<Rightarrow> Inl err
           | Inr (ords', counter'') \<Rightarrow> Inr (ords @ ords', counter'')))"

text \<open>
  The values of \<^verbatim>\<open>Portfolio.open_positions_detail\<close>, and
  \<^verbatim>\<open>RiskManager.check_stop_conditions\<close>, which has a branch for long positions only.
\<close>

record position_detail =
  pd_qty :: real
  pd_entry :: real
  pd_stop_loss :: "real option"
  pd_take_profit :: "real option"

definition stop_hit :: "real option \<Rightarrow> market_event \<Rightarrow> bool" where
  "stop_hit sl bar = (case sl of None \<Rightarrow> False | Some v \<Rightarrow> v \<noteq> 0 \<and> bar_low bar \<le> v)"

definition take_profit_hit :: "real option \<Rightarrow> market_event \<Rightarrow> bool" where
  "take_profit_hit tp bar = (case tp of None \<Rightarrow> False | Some v \<Rightarrow> v \<noteq> 0 \<and> bar_high bar \<ge> v)"

text \<open>The body of the loop of \<^verbatim>\<open>check_stop_conditions\<close> for one position.\<close>

definition check_position ::
  "symbol \<Rightarrow> position_detail \<Rightarrow> bars \<Rightarrow> nat \<Rightarrow> order_event list \<times> nat" where
  "check_position symb pos market_events counter =
     (case map_of market_events symb of
        None \<Rightarrow> ([], counter)
      | Some bar \<Rightarrow>
          if pd_qty pos = 0 then ([], counter)
          else
            (let sl = pd_stop_loss pos; tp = pd_take_profit pos; qty = pd_qty pos
             in if qty > 0 then
                  (if stop_hit sl bar then
                     (let (ord, counter') = new_order counter (bar_timestamp bar) symb SELL qty None None
                      in ([ord], counter'))
                   else if take_profit_hit tp bar then
                     (let (ord, counter') = new_order counter (bar_timestamp bar) symb SELL qty None None
                      in ([ord], counter'))
                   else ([], counter))
                else ([], counter)))"

fun check_stop_conditions ::
  "(symbol \<times> position_detail) list \<Rightarrow> bars \<Rightarrow> nat \<Rightarrow> order_event list \<times> nat" where
  "check_stop_conditions [] market_events counter = ([], counter)"
| "check_stop_conditions ((symb, pos) # rest) market_events counter =
     (let (ords, counter') = check_position symb pos market_events counter;
          (ords', counter'') = check_stop_conditions rest market_events counter'
      in (ords @ ords', counter''))"

subsection \<open>broker.py: slippage, commission, the simulated broker\<close>

text \<open>
  \<^verbatim>\<open>BaseSlippage\<close> and \<^verbatim>\<open>BaseCommission\<close> are abstract: a broker holds any
  implementation of \<^verbatim>\<open>apply(side, price, quantity, bar)\<close> and of
  \<^verbatim>\<open>calculate(quantity, fill_price)\<close>. The two defaults of the constructor and the
  per-share model are given here.
\<close>

type_synonym slippage_model = "order_side \<Rightarrow> real \<Rightarrow> real \<Rightarrow> market_event \<Rightarrow> real"

type_synonym commission_model = "real \<Rightarrow> real \<Rightarrow> real"

definition FixedSlippage :: "real \<Rightarrow> slippage_model" where
  "FixedSlippage bps = (\<lambda>side price quantity bar. price * (bps / 10000))"

definition PerShareCommission :: "real \<Rightarrow> real \<Rightarrow> commission_model" where
  "PerShareCommission rate min_fee = (\<lambda>quantity price. max (quantity * rate) min_fee)"

definition PercentCommission :: "real \<Rightarrow> commission_model" where
  "PercentCommission pct = (\<lambda>quantity price. quantity * price * pct)"

record pending_item =
  it_order :: order_event
  it_bars_waited :: int

record broker =
  br_slippage :: slippage_model
  br_commission :: commission_model
  br_max_bars_pending :: int
  br_pending :: "pending_item list"

definition new_broker :: "slippage_model \<Rightarrow> commission_model \<Rightarrow> int \<Rightarrow> broker" where
  "new_broker slip comm max_bars =
     \<lparr>br_slippage = slip, br_commission = comm, br_max_bars_pending = max_bars, br_pending = []\<rparr>"

definition submit :: "broker \<Rightarrow> order_event \<Rightarrow> broker" where
  "submit b ord = b\<lparr>br_pending := br_pending b @ [\<lparr>it_order = ord, it_bars_waited = 0\<rparr>]\<rparr>"

text \<open>
  \<^verbatim>\<open>_try_fill\<close>: \<open>None\<close> is Python's \<^verbatim>\<open>None\<close> (no fill on this bar). A LIMIT order
  without a limit price compares a float with \<^verbatim>\<open>None\<close>, a \<^verbatim>\<open>TypeError\<close>.
\<close>

definition try_fill :: "order_event \<Rightarrow> market_event \<Rightarrow> py_error + real option" where
  "try_fill ord bar =
     (case ord_order_type ord of
        MARKET \<Rightarrow> Inr (Some (bar_open bar))
      | LIMIT \<Rightarrow>
          (case ord_limit_price ord of
             None \<Rightarrow> Inl TypeError
           | Some lp \<Rightarrow>
               if ord_side ord = BUY \<and> bar_low bar \<le> lp then Inr (Some (min lp (bar_open bar)))
               else if ord_side ord = SELL \<and> bar_high bar \<ge> lp then Inr (Some (max lp (bar_open bar)))
               else Inr None))"

text \<open>
  The loop of \<^verbatim>\<open>process_bar\<close> mutates the queue entry (\<^verbatim>\<open>bars_waited\<close>) and the
  order object (\<^verbatim>\<open>status\<close>). What one iteration does to one entry is one of three
  outcomes; each carries the objects as the iteration leaves them.
\<close>

datatype item_outcome =
    Kept pending_item
  | Filled order_event fill_event
  | Cancelled order_event

definition process_item ::
  "broker \<Rightarrow> bars \<Rightarrow> (string \<rightharpoonup> string) \<Rightarrow> pending_item \<Rightarrow> py_error + item_outcome" where
  "process_item b market_events strategy_id_map item =
     (let ord = it_order item;
          item' = item\<lparr>it_bars_waited := it_bars_waited item + 1\<rparr>
      in case map_of market_events (ord_symbol ord) of
           None \<Rightarrow> Inr (Kept item')
         | Some bar \<Rightarrow>
             (case try_fill ord bar of
                Inl err \<Rightarrow> Inl err
              | Inr (Some price) \<Rightarrow>
                  (let slip = br_slippage b (ord_side ord) price (ord_quantity ord) bar;
                       price' = (if ord_side ord = BUY then price + slip else price - slip);
                       comm = br_commission b (ord_quantity ord) price'
                   in Inr (Filled (ord\<lparr>ord_status := FILLED\<rparr>)
                        \<lparr>fill_timestamp = bar_timestamp bar, fill_symbol = ord_symbol ord,
                         fill_side = ord_side ord, fill_quantity = ord_quantity ord,
                         fill_price = price', fill_commission = comm,
                         fill_slippage = slip * ord_quantity ord,
                         fill_order_id = ord_order_id ord,
                         fill_strategy_id = (case strategy_id_map (ord_order_id ord) of
                                               None \<Rightarrow> [] | Some sid \<Rightarrow> sid)\<rparr>))
              | Inr None \<Rightarrow>
                  if it_bars_waited item' \<ge> br_max_bars_pending b
                  then Inr (Cancelled (ord\<lparr>ord_status := CANCELLED\<rparr>))
                  else Inr (Kept item')))"

fun process_items ::
  "broker \<Rightarrow> bars \<Rightarrow> (string \<rightharpoonup> string) \<Rightarrow> pending_item list
     \<Rightarrow> py_error + item_outcome list" where
  "process_items b market_events strategy_id_map [] = Inr []"
| "process_items b market_events strategy_id_map (item # items) =
     (case process_item b market_events strategy_id_map item of
        Inl err \<Rightarrow> Inl err
      | Inr out \<Rightarrow>
          (case process_items b market_events strategy_id_map items of
             Inl err \<Rightarrow> Inl err
           | Inr outs \<Rightarrow> Inr (out # outs)))"

fun still_pending :: "item_outcome list \<Rightarrow> pending_item list" where
  "still_pending [] = []"
| "still_pending (Kept item # outs) = item # still_pending outs"
| "still_pending (_ # outs) = still_pending outs"

fun fills_of :: "item_outcome list \<Rightarrow> fill_event list" where
  "fills_of [] = []"
| "fills_of (Filled ord fill # outs) = fill # fills_of outs"
| "fills_of (_ # outs) = fills_of outs"

text \<open>
  \<^verbatim>\<open>SimulatedBroker.process_bar\<close>: the broker with its new queue and the fills returned.
  The outcomes are returned as well: they are the state of the order objects after the
  call, which a caller holding the orders observes.
\<close>

definition process_bar ::
  "broker \<Rightarrow> bars \<Rightarrow> (string \<rightharpoonup> string)
     \<Rightarrow> py_error + (broker \<times> fill_event list \<times> item_outcome list)" where
  "process_bar b market_events strategy_id_map =
     (case process_items b market_events strategy_id_map (br_pending b) of
        Inl err \<Rightarrow> Inl err
      | Inr outs \<Rightarrow> Inr (b\<lparr>br_pending := still_pending outs\<rparr>, fills_of outs, outs))"

subsection \<open>portfolio.py: the ledger\<close>

record position =
  pos_symbol :: symbol
  pos_quantity :: real
  pos_avg_entry :: real
  pos_stop_loss :: "real option"
  pos_take_profit :: "real option"
  pos_realized_pnl :: real

record trade_record =
  tr_timestamp :: timestamp
  tr_symbol :: symbol
  tr_side :: string
  tr_quantity :: real
  tr_fill_price :: real
  tr_commission :: real
  tr_slippage :: real
  tr_pnl :: real
  tr_order_id :: string
  tr_strategy_id :: string

record equity_snapshot =
  snap_timestamp :: timestamp
  snap_cash :: real
  snap_holdings_value :: real
  snap_equity :: real
  snap_realized_pnl :: real
  snap_unrealized_pnl :: real
  snap_drawdown :: real

record portfolio =
  pf_initial_capital :: real
  pf_cash :: real
  pf_positions :: "(symbol \<times> position) list"
  pf_equity_curve :: "equity_snapshot list"
  pf_trades :: "trade_record list"
  pf_total_commission :: real
  pf_total_slippage :: real

definition new_portfolio :: "real \<Rightarrow> portfolio" where
  "new_portfolio initial_capital =
     \<lparr>pf_initial_capital = initial_capital, pf_cash = initial_capital, pf_positions = [],
      pf_equity_curve = [], pf_trades = [], pf_total_commission = 0, pf_total_slippage = 0\<rparr>"

definition market_value :: "position \<Rightarrow> real \<Rightarrow> real" where
  "market_value pos current_price = pos_quantity pos * current_price"

definition unrealized_pnl :: "position \<Rightarrow> real \<Rightarrow> real" where
  "unrealized_pnl pos current_price = (current_price - pos_avg_entry pos) * pos_quantity pos"

definition record_trade :: "portfolio \<Rightarrow> fill_event \<Rightarrow> real \<Rightarrow> portfolio" where
  "record_trade p fill pnl =
     p\<lparr>pf_trades := pf_trades p @
        [\<lparr>tr_timestamp = fill_timestamp fill, tr_symbol = fill_symbol fill,
          tr_side = side_value (fill_side fill), tr_quantity = fill_quantity fill,
          tr_fill_price = fill_price fill, tr_commission = fill_commission fill,
          tr_slippage = fill_slippage fill, tr_pnl = pnl,
          tr_order_id = fill_order_id fill, tr_strategy_id = fill_strategy_id fill\<rparr>]\<rparr>"

text \<open>
  \<^verbatim>\<open>_process_buy\<close>. The quotient of the averaging branch has the divisor
  \<^verbatim>\<open>pos.quantity + fill.quantity\<close> with \<^verbatim>\<open>pos.quantity > 0\<close>; it is positive for every
  fill of non-negative quantity.
\<close>

definition process_buy :: "portfolio \<Rightarrow> fill_event \<Rightarrow> portfolio" where
  "process_buy p fill =
     (let symb = fill_symbol fill;
          p' = (case map_of (pf_positions p) symb of
                  Some pos \<Rightarrow>
                    if pos_quantity pos > 0 then
                      (let total_qty = pos_quantity pos + fill_quantity fill;
                           avg_entry = (pos_quantity pos * pos_avg_entry pos
                                          + fill_quantity fill * fill_price fill) / total_qty
                       in p\<lparr>pf_positions := AList.update symb
                              (pos\<lparr>pos_quantity := total_qty, pos_avg_entry := avg_entry\<rparr>)
                              (pf_positions p)\<rparr>)
                    else
                      p\<lparr>pf_positions := AList.update symb
                           \<lparr>pos_symbol = symb, pos_quantity = fill_quantity fill,
                            pos_avg_entry = fill_price fill, pos_stop_loss = None,
                            pos_take_profit = None, pos_realized_pnl = 0\<rparr>
                           (pf_positions p)\<rparr>
                | None \<Rightarrow>
                    p\<lparr>pf_positions := AList.update symb
                         \<lparr>pos_symbol = symb, pos_quantity = fill_quantity fill,
                          pos_avg_entry = fill_price fill, pos_stop_loss = None,
                          pos_take_profit = None, pos_realized_pnl = 0\<rparr>
                         (pf_positions p)\<rparr>)
      in record_trade p' fill 0)"

definition process_sell :: "portfolio \<Rightarrow> fill_event \<Rightarrow> portfolio \<times> real" where
  "process_sell p fill =
     (let symb = fill_symbol fill
      in case map_of (pf_positions p) symb of
           None \<Rightarrow> (record_trade p fill 0, 0)
         | Some pos \<Rightarrow>
             (let realized = (fill_price fill - pos_avg_entry pos) * fill_quantity fill;
                  pos' = pos\<lparr>pos_quantity := pos_quantity pos - fill_quantity fill,
                             pos_realized_pnl := pos_realized_pnl pos + realized\<rparr>;
                  positions' = (if \<bar>pos_quantity pos'\<bar> < 1 / 10 ^ 9
                                then AList.delete symb (pf_positions p)
                                else AList.update symb pos' (pf_positions p))
              in (record_trade (p\<lparr>pf_positions := positions'\<rparr>) fill realized, realized)))"

definition on_fill :: "portfolio \<Rightarrow> fill_event \<Rightarrow> portfolio" where
  "on_fill p fill =
     (let cost = fill_price fill * fill_quantity fill + fill_commission fill;
          p' = (if fill_side fill = BUY then
                  (let p1 = process_buy p fill in p1\<lparr>pf_cash := pf_cash p1 - cost\<rparr>)
                else
                  (let (p1, realized) = process_sell p fill
                   in p1\<lparr>pf_cash := pf_cash p1
                               + (fill_price fill * fill_quantity fill - fill_commission fill)\<rparr>))
      in p'\<lparr>pf_total_commission := pf_total_commission p' + fill_commission fill,
            pf_total_slippage := pf_total_slippage p' + fill_slippage fill\<rparr>)"

text \<open>
  \<^verbatim>\<open>attach_stop_tp\<close>, "called after fill to store SL/TP on the position". It is the
  only code that assigns \<^verbatim>\<open>stop_loss\<close> or \<^verbatim>\<open>take_profit\<close> of a position.
\<close>

definition attach_stop_tp ::
  "portfolio \<Rightarrow> string \<Rightarrow> symbol \<Rightarrow> real option \<Rightarrow> real option \<Rightarrow> portfolio" where
  "attach_stop_tp p order_id symb stop_loss take_profit =
     (case map_of (pf_positions p) symb of
        None \<Rightarrow> p
      | Some pos \<Rightarrow>
          p\<lparr>pf_positions := AList.update symb
               (pos\<lparr>pos_stop_loss := stop_loss, pos_take_profit := take_profit\<rparr>)
               (pf_positions p)\<rparr>)"

text \<open>
  \<^verbatim>\<open>mark_to_market\<close>. The price a position is valued at, then the loop that
  accumulates \<^verbatim>\<open>holdings_value\<close> and \<^verbatim>\<open>unrealized_pnl\<close> from 0 over the positions.
\<close>

definition mark_price :: "bars \<Rightarrow> symbol \<Rightarrow> position \<Rightarrow> real" where
  "mark_price market_events symb pos =
     (case map_of market_events symb of
        Some bar \<Rightarrow> bar_close bar
      | None \<Rightarrow> pos_avg_entry pos)"

fun mark_loop :: "bars \<Rightarrow> (symbol \<times> position) list \<Rightarrow> real \<times> real \<Rightarrow> real \<times> real" where
  "mark_loop market_events [] acc = acc"
| "mark_loop market_events ((symb, pos) # rest) (holdings_value, unrealized) =
     (let price = mark_price market_events symb pos;
          mv = market_value pos price
      in mark_loop market_events rest (holdings_value + mv, unrealized + unrealized_pnl pos price))"

definition mark_to_market :: "portfolio \<Rightarrow> timestamp \<Rightarrow> bars \<Rightarrow> portfolio \<times> real" where
  "mark_to_market p ts market_events =
     (let (holdings_value, unrealized) = mark_loop market_events (pf_positions p) (0, 0);
          equity = pf_cash p + holdings_value;
          realized_pnl = sum_list (map tr_pnl (pf_trades p))
      in (p\<lparr>pf_equity_curve := pf_equity_curve p @
             [\<lparr>snap_timestamp = ts, snap_cash = pf_cash p, snap_holdings_value = holdings_value,
               snap_equity = equity, snap_realized_pnl = realized_pnl,
               snap_unrealized_pnl = unrealized, snap_drawdown = 0\<rparr>]\<rparr>, equity))"

text \<open>The property \<^verbatim>\<open>Portfolio.equity\<close> and the two views of the positions.\<close>

definition equity :: "portfolio \<Rightarrow> real" where
  "equity p = (if pf_equity_curve p \<noteq> [] then snap_equity (last (pf_equity_curve p))
               else pf_initial_capital p)"

definition open_positions :: "portfolio \<Rightarrow> (symbol \<times> real) list" where
  "open_positions p = map (\<lambda>(s, pos). (s, pos_quantity pos)) (pf_positions p)"

definition open_positions_detail :: "portfolio \<Rightarrow> (symbol \<times> position_detail) list" where
  "open_positions_detail p =
     map (\<lambda>(s, pos). (s, \<lparr>pd_qty = pos_quantity pos, pd_entry = pos_avg_entry pos,
                           pd_stop_loss = pos_stop_loss pos,
                           pd_take_profit = pos_take_profit pos\<rparr>)) (pf_positions p)"

subsection \<open>base.py: strategies\<close>

text \<open>
  \<^verbatim>\<open>BaseStrategy\<close> is abstract. The engine uses a strategy through three calls:
  \<^verbatim>\<open>on_bar(timestamp, market_events)\<close> followed at once by \<^verbatim>\<open>flush_signals()\<close>, and
  \<^verbatim>\<open>on_fill(fill)\<close>. A strategy is therefore its private state (with the signal
  buffer in it), the function from the state before \<^verbatim>\<open>on_bar\<close> to the state after
  \<^verbatim>\<open>flush_signals\<close> and the signals flushed, and the state change of \<^verbatim>\<open>on_fill\<close>,
  which \<^verbatim>\<open>BaseStrategy\<close> defines as doing nothing. The feed is the one attached by
  \<^verbatim>\<open>attach_feed\<close>.
\<close>

record 's strategy =
  strat_on_bar :: "feed \<Rightarrow> timestamp \<Rightarrow> bars \<Rightarrow> 's \<Rightarrow> 's \<times> signal_event list"
  strat_on_fill :: "fill_event \<Rightarrow> 's \<Rightarrow> 's"
  strat_state :: 's

subsection \<open>engine.py: the event loop\<close>

record 's engine =
  eng_feed :: feed
  eng_strategies :: "'s strategy list"
  eng_portfolio :: portfolio
  eng_broker :: broker
  eng_risk_manager :: risk_manager
  eng_order_strategy_map :: "string \<rightharpoonup> string"

definition new_engine ::
  "feed \<Rightarrow> 's strategy list \<Rightarrow> real \<Rightarrow> broker \<Rightarrow> risk_manager \<Rightarrow> 's engine" where
  "new_engine data strategies initial_capital b rm =
     \<lparr>eng_feed = data, eng_strategies = strategies, eng_portfolio = new_portfolio initial_capital,
      eng_broker = b, eng_risk_manager = rm, eng_order_strategy_map = Map.empty\<rparr>"

text \<open>\<^verbatim>\<open>_submit\<close>.\<close>

definition engine_submit :: "'s engine \<Rightarrow> order_event \<Rightarrow> string \<Rightarrow> 's engine" where
  "engine_submit e ord strategy_id =
     e\<lparr>eng_order_strategy_map := (eng_order_strategy_map e)(ord_order_id ord \<mapsto> strategy_id),
       eng_broker := submit (eng_broker e) ord\<rparr>"

text \<open>Step 2 of the loop: \<^verbatim>\<open>on_bar\<close> and \<^verbatim>\<open>flush_signals\<close> of every strategy, in order.\<close>

fun run_strategies ::
  "feed \<Rightarrow> timestamp \<Rightarrow> bars \<Rightarrow> 's strategy list \<Rightarrow> 's strategy list \<times> signal_event list" where
  "run_strategies data ts market_events [] = ([], [])"
| "run_strategies data ts market_events (strat # strats) =
     (let (st', sigs) = strat_on_bar strat data ts market_events (strat_state strat);
          (strats', sigs') = run_strategies data ts market_events strats
      in (strat\<lparr>strat_state := st'\<rparr> # strats', sigs @ sigs'))"

text \<open>
  The strategy an order of step 3 is attributed to: that of the first signal of the bar
  with the order's symbol.
\<close>

definition attributed_to :: "signal_event list \<Rightarrow> order_event \<Rightarrow> string" where
  "attributed_to all_signals ord =
     (case find (\<lambda>s. sig_symbol s = ord_symbol ord) all_signals of
        None \<Rightarrow> []
      | Some sg \<Rightarrow> sig_strategy_id sg)"

text \<open>Step 5 for one fill: the portfolio, then every strategy.\<close>

definition apply_fill :: "'s engine \<Rightarrow> fill_event \<Rightarrow> 's engine" where
  "apply_fill e fill =
     e\<lparr>eng_portfolio := on_fill (eng_portfolio e) fill,
       eng_strategies :=
         map (\<lambda>strat. strat\<lparr>strat_state := strat_on_fill strat fill (strat_state strat)\<rparr>)
             (eng_strategies e)\<rparr>"

text \<open>
  Step 1, the stop and take-profit sweep with its orders submitted for \<^verbatim>\<open>"__risk__"\<close>,
  and step 2: the engine afterwards, the signals collected and the counter.
\<close>

definition sweep_and_dispatch ::
  "'s engine \<Rightarrow> nat \<Rightarrow> timestamp \<Rightarrow> bars \<Rightarrow> 's engine \<times> signal_event list \<times> nat" where
  "sweep_and_dispatch e counter ts market_events =
     (let (stop_orders, counter1) =
            check_stop_conditions (open_positions_detail (eng_portfolio e)) market_events counter;
          e1 = foldl (\<lambda>e ord. engine_submit e ord ''__risk__'') e stop_orders;
          (strats, all_signals) = run_strategies (eng_feed e1) ts market_events (eng_strategies e1)
      in (e1\<lparr>eng_strategies := strats\<rparr>, all_signals, counter1))"

text \<open>
  The call of step 3:
  \<^verbatim>\<open>self.risk_manager.process_signals(signals=all_signals, market_events=market_events,
  feed=self.feed, equity=self.portfolio.equity, open_positions=self.portfolio.open_positions)\<close>.
\<close>

definition risk_orders ::
  "'s engine \<Rightarrow> signal_event list \<Rightarrow> bars \<Rightarrow> nat \<Rightarrow> py_error + (order_event list \<times> nat)" where
  "risk_orders e all_signals market_events counter =
     process_signals (eng_risk_manager e) all_signals market_events (eng_feed e)
       (equity (eng_portfolio e)) (open_positions (eng_portfolio e)) counter"

text \<open>Steps 1 to 3 together.\<close>

definition submit_phase ::
  "'s engine \<Rightarrow> nat \<Rightarrow> timestamp \<Rightarrow> bars \<Rightarrow> py_error + ('s engine \<times> nat)" where
  "submit_phase e counter ts market_events =
     (let (e2, all_signals, counter1) = sweep_and_dispatch e counter ts market_events
      in case risk_orders e2 all_signals market_events counter1 of
           Inl err \<Rightarrow> Inl err
         | Inr (orders, counter2) \<Rightarrow>
             Inr (foldl (\<lambda>e ord. engine_submit e ord (attributed_to all_signals ord)) e2 orders,
                  counter2))"

text \<open>Steps 4 to 6: the broker fills against the same bars, the fills are applied, the
  portfolio is marked to market.\<close>

definition fill_phase :: "'s engine \<Rightarrow> timestamp \<Rightarrow> bars \<Rightarrow> py_error + 's engine" where
  "fill_phase e ts market_events =
     (case process_bar (eng_broker e) market_events (eng_order_strategy_map e) of
        Inl err \<Rightarrow> Inl err
      | Inr (b, fills, outs) \<Rightarrow>
          (let e1 = foldl apply_fill (e\<lparr>eng_broker := b\<rparr>) fills;
               (p, eq) = mark_to_market (eng_portfolio e1) ts market_events
           in Inr (e1\<lparr>eng_portfolio := p\<rparr>)))"

definition engine_step ::
  "'s engine \<Rightarrow> nat \<Rightarrow> timestamp \<times> bars \<Rightarrow> py_error + ('s engine \<times> nat)" where
  "engine_step e counter tb =
     (case submit_phase e counter (fst tb) (snd tb) of
        Inl err \<Rightarrow> Inl err
      | Inr (e1, counter1) \<Rightarrow>
          (case fill_phase e1 (fst tb) (snd tb) of
             Inl err \<Rightarrow> Inl err
           | Inr e2 \<Rightarrow> Inr (e2, counter1)))"

text \<open>The loop over the bars a feed yields, and \<^verbatim>\<open>BacktestEngine.run\<close>.\<close>

fun run_bars ::
  "'s engine \<Rightarrow> nat \<Rightarrow> (timestamp \<times> bars) list \<Rightarrow> py_error + ('s engine \<times> nat)" where
  "run_bars e counter [] = Inr (e, counter)"
| "run_bars e counter (tb # rest) =
     (case engine_step e counter tb of
        Inl err \<Rightarrow> Inl err
      | Inr (e', counter') \<Rightarrow> run_bars e' counter' rest)"

definition run :: "'s engine \<Rightarrow> nat \<Rightarrow> py_error + ('s engine \<times> nat)" where
  "run e counter = run_bars e counter (feed_iter (eng_feed e))"

subsection \<open>Concrete inputs\<close>

text \<open>A flat bar of one price, as a row of a data frame.\<close>

definition flat_row :: "timestamp \<Rightarrow> real \<Rightarrow> ohlcv_row" where
  "flat_row ts price =
     \<lparr>row_ts = ts, row_open = price, row_high = price, row_low = price, row_close = price,
      row_volume = 1000000\<rparr>"

text \<open>A SELL fill of 10 shares at 100 and a later BUY fill of 10 shares at 90.\<close>

definition sell_10_at_100 :: fill_event where
  "sell_10_at_100 =
     \<lparr>fill_timestamp = 1, fill_symbol = ''A'', fill_side = SELL, fill_quantity = 10,
      fill_price = 100, fill_commission = 1, fill_slippage = 0,
      fill_order_id = ''ORD-000001'', fill_strategy_id = ''s''\<rparr>"

definition buy_10_at_90 :: fill_event where
  "buy_10_at_90 =
     \<lparr>fill_timestamp = 2, fill_symbol = ''A'', fill_side = BUY, fill_quantity = 10,
      fill_price = 90, fill_commission = 1, fill_slippage = 0,
      fill_order_id = ''ORD-000002'', fill_strategy_id = ''s''\<rparr>"

text \<open>
  The true range of row \<open>i\<close> as the specification words it:
  \<open>TR\<^sub>i = max(H\<^sub>i - L\<^sub>i, |H\<^sub>i - C\<^sub>i\<^sub>-\<^sub>1|, |L\<^sub>i - C\<^sub>i\<^sub>-\<^sub>1|)\<close>.
\<close>

definition spec_true_range :: "dataframe \<Rightarrow> nat \<Rightarrow> real" where
  "spec_true_range df i =
     max (max (row_high (df ! i) - row_low (df ! i))
              \<bar>row_high (df ! i) - row_close (df ! (i - 1))\<bar>)
         \<bar>row_low (df ! i) - row_close (df ! (i - 1))\<bar>"

text \<open>Three rows whose true ranges are 3 and 1; a fourth row adds the true range 4.\<close>

definition bar_row :: "timestamp \<Rightarrow> real \<Rightarrow> real \<Rightarrow> real \<Rightarrow> real \<Rightarrow> ohlcv_row" where
  "bar_row ts opn hi lo cls =
     \<lparr>row_ts = ts, row_open = opn, row_high = hi, row_low = lo, row_close = cls,
      row_volume = 1000000\<rparr>"

definition three_rows :: dataframe where
  "three_rows = [bar_row 1 9 10 8 9, bar_row 2 9 12 9 11, bar_row 3 11 11 10 10]"

definition four_rows :: dataframe where
  "four_rows = [bar_row 1 9 10 8 9, bar_row 2 9 12 9 11, bar_row 3 11 11 10 10, bar_row 4 10 14 10 12]"

definition demo_sizer :: atr_position_sizer where
  "demo_sizer = \<lparr>risk_pct = 1 / 100, atr_period = 2, atr_multiplier = 2, max_position_pct = 1 / 5\<rparr>"

text \<open>
  A flat bar of one symbol, a risk manager with the fixed-fraction sizer and a cap of one
  open long position, and a LONG signal of full strength.
\<close>

definition flat_bar :: "timestamp \<Rightarrow> symbol \<Rightarrow> real \<Rightarrow> market_event" where
  "flat_bar ts symb price =
     \<lparr>bar_timestamp = ts, bar_symbol = symb, bar_open = price, bar_high = price, bar_low = price,
      bar_close = price, bar_volume = 1000000\<rparr>"

definition capped_manager :: "bool \<Rightarrow> risk_manager" where
  "capped_manager shorting =
     \<lparr>rm_sizer = FixedFractionSizer (1 / 20), rm_atr_period = 14, rm_stop_atr_mult = 2,
      rm_tp_atr_mult = 4, rm_max_open_positions = 1, rm_allow_short = shorting\<rparr>"

definition long_signal :: "timestamp \<Rightarrow> symbol \<Rightarrow> real option \<Rightarrow> signal_event" where
  "long_signal ts symb sl =
     \<lparr>sig_timestamp = ts, sig_symbol = symb, sig_strategy_id = ''strat'', sig_direction = LONG,
      sig_strength = 1, sig_stop_loss = sl, sig_take_profit = None\<rparr>"

text \<open>
  A LIMIT BUY at 90 for the symbol X, and a broker with a given limit of bars whose queue
  holds such orders with given ids and bars waited.
\<close>

definition limit_buy_90 :: "string \<Rightarrow> order_event" where
  "limit_buy_90 oid =
     \<lparr>ord_timestamp = 0, ord_symbol = ''X'', ord_order_type = LIMIT, ord_side = BUY,
      ord_quantity = 10, ord_limit_price = Some 90, ord_stop_loss = None, ord_take_profit = None,
      ord_order_id = oid, ord_status = PENDING\<rparr>"

definition queued_broker :: "int \<Rightarrow> (string \<times> int) list \<Rightarrow> broker" where
  "queued_broker max_bars queue =
     \<lparr>br_slippage = FixedSlippage 5, br_commission = PercentCommission (1 / 1000),
      br_max_bars_pending = max_bars,
      br_pending = map (\<lambda>(oid, waited). \<lparr>it_order = limit_buy_90 oid, it_bars_waited = waited\<rparr>) queue\<rparr>"

subsection \<open>Notions used in the statements and proofs\<close>

text \<open>The number a string of decimal digits denotes; it reads back what \<^const>\<open>digits\<close> prints.\<close>

definition digit_value :: "char \<Rightarrow> nat" where
  "digit_value ch = of_char ch - 48"

definition digits_value :: "string \<Rightarrow> nat" where
  "digits_value s = foldl (\<lambda>acc ch. 10 * acc + digit_value ch) 0 s"

text \<open>
  An order, a fill and a trade record without their order id, and the ids that
  \<^verbatim>\<open>_next_id\<close> hands out for the next \<open>n\<close> orders when the counter stands at \<open>counter\<close>.
\<close>

definition strip_order :: "order_event \<Rightarrow> order_event" where
  "strip_order ord = ord\<lparr>ord_order_id := []\<rparr>"

definition strip_fill :: "fill_event \<Rightarrow> fill_event" where
  "strip_fill fill = fill\<lparr>fill_order_id := []\<rparr>"

definition strip_trade :: "trade_record \<Rightarrow> trade_record" where
  "strip_trade t = t\<lparr>tr_order_id := []\<rparr>"

fun ids_from :: "nat \<Rightarrow> nat \<Rightarrow> string list" where
  "ids_from counter 0 = []"
| "ids_from counter (Suc n) = format_id (counter + 1) # ids_from (counter + 1) n"

text \<open>
  An order that the broker fills on the bars it is given: a MARKET order whose symbol has
  a bar. The fill it then produces, for the strategy id found in the attribution map.
\<close>

definition fillable :: "bars \<Rightarrow> order_event \<Rightarrow> bool" where
  "fillable market_events ord =
     (ord_order_type ord = MARKET \<and> map_of market_events (ord_symbol ord) \<noteq> None)"

definition market_fill :: "broker \<Rightarrow> bars \<Rightarrow> string \<Rightarrow> order_event \<Rightarrow> fill_event" where
  "market_fill b market_events strategy_id ord =
     (case map_of market_events (ord_symbol ord) of
        None \<Rightarrow> undefined
      | Some bar \<Rightarrow>
          (let price = bar_open bar;
               slip = br_slippage b (ord_side ord) price (ord_quantity ord) bar;
               price' = (if ord_side ord = BUY then price + slip else price - slip)
           in \<lparr>fill_timestamp = bar_timestamp bar, fill_symbol = ord_symbol ord,
               fill_side = ord_side ord, fill_quantity = ord_quantity ord,
               fill_price = price', fill_commission = br_commission b (ord_quantity ord) price',
               fill_slippage = slip * ord_quantity ord, fill_order_id = ord_order_id ord,
               fill_strategy_id = strategy_id\<rparr>))"

text \<open>
  A list of orders that carries, in order, the ids handed out from \<open>counter\<close> on and is
  otherwise the list \<open>tmpl\<close>; and a function of the counter that either raises the same
  error for every counter or returns, for every counter, the same fillable orders stamped
  with the ids from that counter on, and the counter advanced by their number.
\<close>

definition stamped :: "nat \<Rightarrow> order_event list \<Rightarrow> order_event list \<Rightarrow> bool" where
  "stamped counter tmpl ords \<longleftrightarrow>
     map strip_order ords = tmpl \<and> map ord_order_id ords = ids_from counter (length tmpl)"

definition uniform :: "bars \<Rightarrow> (nat \<Rightarrow> py_error + (order_event list \<times> nat)) \<Rightarrow> bool" where
  "uniform market_events f \<longleftrightarrow>
     (\<exists>err. \<forall>counter. f counter = Inl err)
     \<or> (\<exists>tmpl. (\<forall>ord\<in>set tmpl. fillable market_events ord)
           \<and> (\<forall>counter. \<exists>ords. f counter = Inr (ords, counter + length tmpl)
                                 \<and> stamped counter tmpl ords))"

text \<open>
  The queue entry \<^verbatim>\<open>submit\<close> makes of an order, and the strategy id \<^verbatim>\<open>process_bar\<close> reads
  for an order from the attribution map.
\<close>

definition queue_entry :: "order_event \<Rightarrow> pending_item" where
  "queue_entry ord = \<lparr>it_order = ord, it_bars_waited = 0\<rparr>"

definition stamp_of :: "(string \<rightharpoonup> string) \<Rightarrow> order_event \<Rightarrow> string" where
  "stamp_of m ord = (case m (ord_order_id ord) of None \<Rightarrow> [] | Some sid \<Rightarrow> sid)"

text \<open>
  A portfolio and an engine with the order ids taken out: the ids of the trade log and
  the keys of the attribution map. A strategy is blind to order ids when its \<^verbatim>\<open>on_fill\<close>
  does not depend on the \<^verbatim>\<open>order_id\<close> of the fill, as the \<^verbatim>\<open>on_fill\<close> of \<^verbatim>\<open>BaseStrategy\<close>,
  which does nothing.
\<close>

definition strip_portfolio :: "portfolio \<Rightarrow> portfolio" where
  "strip_portfolio p = p\<lparr>pf_trades := map strip_trade (pf_trades p)\<rparr>"

definition erase_ids :: "'s engine \<Rightarrow> 's engine" where
  "erase_ids e = e\<lparr>eng_portfolio := strip_portfolio (eng_portfolio e),
                    eng_order_strategy_map := Map.empty\<rparr>"

definition id_blind :: "'s strategy \<Rightarrow> bool" where
  "id_blind strat \<longleftrightarrow>
     (\<forall>fill oid st. strat_on_fill strat (fill\<lparr>fill_order_id := oid\<rparr>) st = strat_on_fill strat fill st)"

text \<open>Step 6 as a function of the engine: the portfolio marked to market.\<close>

definition finish_bar :: "'s engine \<Rightarrow> timestamp \<Rightarrow> bars \<Rightarrow> 's engine" where
  "finish_bar e ts me = e\<lparr>eng_portfolio := fst (mark_to_market (eng_portfolio e) ts me)\<rparr>"

text \<open>
  A function of an engine and a counter (one bar of the loop, or the loop over a list of
  bars) whose outcome, on engines that agree with \<open>x\<close> up to order ids, depends on the
  counter through the ids alone: either the same error for every counter, or for every
  counter the same engine up to order ids, with an empty queue, the counter advanced by
  the same number \<open>n\<close>, and the next \<open>n\<close> ids appended to the id column of the trade log.
\<close>

definition id_uniform ::
  "'s engine \<Rightarrow> ('s engine \<Rightarrow> nat \<Rightarrow> py_error + ('s engine \<times> nat)) \<Rightarrow> bool" where
  "id_uniform x F \<longleftrightarrow>
     (\<exists>err. \<forall>e c. erase_ids e = erase_ids x \<longrightarrow> F e c = Inl err)
     \<or> (\<exists>y n. \<forall>e c. erase_ids e = erase_ids x \<longrightarrow>
            (\<exists>e'. F e c = Inr (e', c + n) \<and> erase_ids e' = y
                  \<and> br_pending (eng_broker e') = []
                  \<and> (\<forall>strat\<in>set (eng_strategies e'). id_blind strat)
                  \<and> map tr_order_id (pf_trades (eng_portfolio e'))
                      = map tr_order_id (pf_trades (eng_portfolio e)) @ ids_from c n))"

text \<open>
  A run of three bars of the symbol A. The strategy emits one LONG signal for A with a
  stop at 98 on the bar of timestamp 1, and nothing afterwards; its \<^verbatim>\<open>on_fill\<close> is the one
  of \<^verbatim>\<open>BaseStrategy\<close>. The second bar has its low at 97. The sizer takes a twentieth of
  the equity, the slippage is 5 basis points and the commission 10.
\<close>

definition buy_once :: "unit strategy" where
  "buy_once =
     \<lparr>strat_on_bar = (\<lambda>data ts market_events st.
                        (st, if ts = 1 then [long_signal ts ''A'' (Some 98)] else [])),
      strat_on_fill = (\<lambda>fill st. st),
      strat_state = ()\<rparr>"

definition demo_feed :: feed where
  "demo_feed = [(''A'', [bar_row 1 100 101 99 100, bar_row 2 100 100 97 98, bar_row 3 98 99 97 98])]"

definition demo_engine :: "unit engine" where
  "demo_engine =
     new_engine demo_feed [buy_once] 100000
       (new_broker (FixedSlippage 5) (PercentCommission (1 / 1000)) 1) (capped_manager False)"

definition demo_bar :: "timestamp \<Rightarrow> real \<Rightarrow> real \<Rightarrow> real \<Rightarrow> real \<Rightarrow> market_event" where
  "demo_bar ts opn hi lo cls =
     \<lparr>bar_timestamp = ts, bar_symbol = ''A'', bar_open = opn, bar_high = hi, bar_low = lo,
      bar_close = cls, bar_volume = 1000000\<rparr>"

text \<open>
  The order the signal becomes when the counter stands at \<open>c\<close>, its fill on the open of
  100, and the ledger and the engine after the fill, with a given equity curve.
\<close>

definition demo_order :: "nat \<Rightarrow> order_event" where
  "demo_order c =
     \<lparr>ord_timestamp = 1, ord_symbol = ''A'', ord_order_type = MARKET, ord_side = BUY,
      ord_quantity = 50, ord_limit_price = None, ord_stop_loss = Some 98,
      ord_take_profit = None, ord_order_id = format_id (c + 1), ord_status = PENDING\<rparr>"

definition demo_fill :: "nat \<Rightarrow> fill_event" where
  "demo_fill c =
     \<lparr>fill_timestamp = 1, fill_symbol = ''A'', fill_side = BUY, fill_quantity = 50,
      fill_price = 2001 / 20, fill_commission = 2001 / 400, fill_slippage = 5 / 2,
      fill_order_id = format_id (c + 1), fill_strategy_id = ''strat''\<rparr>"

definition demo_position :: position where
  "demo_position =
     \<lparr>pos_symbol = ''A'', pos_quantity = 50, pos_avg_entry = 2001 / 20, pos_stop_loss = None,
      pos_take_profit = None, pos_realized_pnl = 0\<rparr>"

definition demo_trade :: "nat \<Rightarrow> trade_record" where
  "demo_trade c =
     \<lparr>tr_timestamp = 1, tr_symbol = ''A'', tr_side = ''BUY'', tr_quantity = 50,
      tr_fill_price = 2001 / 20, tr_commission = 2001 / 400, tr_slippage = 5 / 2, tr_pnl = 0,
      tr_order_id = format_id (c + 1), tr_strategy_id = ''strat''\<rparr>"

definition demo_snapshot :: "timestamp \<Rightarrow> real \<Rightarrow> equity_snapshot" where
  "demo_snapshot ts cls =
     \<lparr>snap_timestamp = ts, snap_cash = 37996999 / 400, snap_holdings_value = 50 * cls,
      snap_equity = 37996999 / 400 + 50 * cls, snap_realized_pnl = 0,
      snap_unrealized_pnl = (cls - 2001 / 20) * 50, snap_drawdown = 0\<rparr>"

definition demo_ledger :: "nat \<Rightarrow> equity_snapshot list \<Rightarrow> portfolio" where
  "demo_ledger c curve =
     \<lparr>pf_initial_capital = 100000, pf_cash = 37996999 / 400,
      pf_positions = [(''A'', demo_position)], pf_equity_curve = curve,
      pf_trades = [demo_trade c], pf_total_commission = 2001 / 400, pf_total_slippage = 5 / 2\<rparr>"

definition holding :: "nat \<Rightarrow> equity_snapshot list \<Rightarrow> unit engine" where
  "holding c curve =
     demo_engine\<lparr>eng_portfolio := demo_ledger c curve,
                  eng_order_strategy_map := [format_id (c + 1) \<mapsto> ''strat'']\<rparr>"

text \<open>A portfolio none of whose positions carries a stop-loss or a take-profit level.\<close>

definition no_stops :: "portfolio \<Rightarrow> bool" where
  "no_stops p \<longleftrightarrow>
     (\<forall>entry\<in>set (pf_positions p).
        pos_stop_loss (snd entry) = None \<and> pos_take_profit (snd entry) = None)"

text \<open>The equity curve of the three bars.\<close>

definition curve3 :: "equity_snapshot list" where
  "curve3 = [demo_snapshot 1 100, demo_snapshot 2 98, demo_snapshot 3 98]"

section \<open>Properties\<close>

subsection \<open>The feed's history\<close>

lemma slice_from_subset: "set (slice_from start xs) \<subseteq> set xs"
  by (auto simp: slice_from_def Let_def dest: in_set_dropD)

lemma slice_from_last_n: "1 \<le> k \<Longrightarrow> slice_from (- k) xs = drop (length xs - nat k) xs"
  by (auto simp: slice_from_def Let_def max_def nat_diff_distrib
           intro: arg_cong[where f="\<lambda>n. drop n xs"])

text \<open>
  Whatever the count, \<^const>\<open>history\<close> returns rows of the symbol up to \<open>up_to\<close> only; and
  a count of at least 1 selects the last that many of them.
\<close>

lemma history_no_lookahead:
  "history data symb up_to n = Inr hist \<Longrightarrow> r \<in> set hist \<Longrightarrow> row_ts r \<le> up_to"
  using slice_from_subset by (fastforce simp: history_def Let_def split: option.splits)

lemma history_last_n:
  assumes "history data symb up_to (Some k) = Inr hist" and "1 \<le> k"
  shows "\<exists>df. map_of data symb = Some df
           \<and> hist = drop (length (filter (\<lambda>r. row_ts r \<le> up_to) df) - nat k)
                       (filter (\<lambda>r. row_ts r \<le> up_to) df)
           \<and> int (length hist) \<le> k"
  using assms by (auto simp: history_def Let_def slice_from_last_n split: option.splits)

text \<open>
  Claim C3: for every symbol of the feed, every timestamp and every count \<open>n\<close>,
  \<^verbatim>\<open>history\<close> returns only bars up to \<open>up_to\<close> and, when \<open>n\<close> is given, at most the last
  \<open>n\<close> of them. The first half is \<open>history_no_lookahead\<close>. The second half fails for
  the count 0: \<^verbatim>\<open>hist.iloc[-0:]\<close> is \<^verbatim>\<open>hist.iloc[0:]\<close>, the whole frame, so with two
  bars up to timestamp 2 the count 0 returns both.
\<close>

theorem history_count_zero_returns_all:
  "history [(''A'', [flat_row 1 100, flat_row 2 101, flat_row 3 102])] ''A'' 2 (Some 0)
     = Inr [flat_row 1 100, flat_row 2 101]"
  by (simp add: history_def slice_from_def flat_row_def)

subsection \<open>The portfolio ledger\<close>

lemma on_fill_positions:
  "pf_positions (on_fill p fill) =
     (if fill_side fill = BUY then pf_positions (process_buy p fill)
      else pf_positions (fst (process_sell p fill)))"
  by (simp add: on_fill_def Let_def split_beta)

lemma on_fill_trades:
  "pf_trades (on_fill p fill) =
     (if fill_side fill = BUY then pf_trades (process_buy p fill)
      else pf_trades (fst (process_sell p fill)))"
  by (simp add: on_fill_def Let_def split_beta)

text \<open>A SELL fill for a symbol without a position leaves the positions as they are.\<close>

lemma sell_without_position:
  "fill_side fill = SELL \<Longrightarrow> map_of (pf_positions p) (fill_symbol fill) = None
     \<Longrightarrow> pf_positions (on_fill p fill) = pf_positions p"
  by (simp add: on_fill_positions process_sell_def record_trade_def)

text \<open>A BUY fill for a symbol without a position opens a long position at the fill price.\<close>

lemma buy_without_position:
  "fill_side fill = BUY \<Longrightarrow> map_of (pf_positions p) (fill_symbol fill) = None
     \<Longrightarrow> pf_positions (on_fill p fill) =
           AList.update (fill_symbol fill)
             \<lparr>pos_symbol = fill_symbol fill, pos_quantity = fill_quantity fill,
              pos_avg_entry = fill_price fill, pos_stop_loss = None,
              pos_take_profit = None, pos_realized_pnl = 0\<rparr> (pf_positions p)"
  by (simp add: on_fill_positions process_buy_def record_trade_def Let_def)

text \<open>Every BUY fill is recorded with a realized P&L of 0, whatever position it meets.\<close>

lemma buy_records_no_pnl:
  "fill_side fill = BUY \<Longrightarrow> map tr_pnl (pf_trades (on_fill p fill)) = map tr_pnl (pf_trades p) @ [0]"
  by (simp add: on_fill_trades process_buy_def record_trade_def Let_def split: option.splits)

text \<open>
  Claim C5: a SELL fill for a symbol with no long position creates a short position of
  negative quantity at the fill price, and a later BUY fill on the symbol covers it,
  realizing P&L against the position's average entry.
  In the code, \<^verbatim>\<open>_process_sell\<close> does nothing to the positions when the symbol has none,
  and \<^verbatim>\<open>_process_buy\<close> then opens a fresh long position and records a P&L of 0: after
  selling 10 at 100 and buying 10 at 90 the ledger holds a long position of 10 at 90 and
  a trade log with no realized P&L, where the claim has no position left and a P&L of 100.
\<close>

theorem sell_then_buy_opens_long:
  "pf_positions (on_fill (new_portfolio 1000) sell_10_at_100) = []
   \<and> pf_positions (on_fill (on_fill (new_portfolio 1000) sell_10_at_100) buy_10_at_90)
       = [(''A'', \<lparr>pos_symbol = ''A'', pos_quantity = 10, pos_avg_entry = 90,
                   pos_stop_loss = None, pos_take_profit = None, pos_realized_pnl = 0\<rparr>)]
   \<and> map tr_pnl (pf_trades (on_fill (on_fill (new_portfolio 1000) sell_10_at_100) buy_10_at_90))
       = [0, 0]"
proof -
  have sell: "pf_positions (on_fill (new_portfolio 1000) sell_10_at_100) = []"
    by (simp add: sell_without_position sell_10_at_100_def new_portfolio_def)
  have sell_pnl: "map tr_pnl (pf_trades (on_fill (new_portfolio 1000) sell_10_at_100)) = [0]"
    by (simp add: on_fill_trades process_sell_def record_trade_def sell_10_at_100_def
                  new_portfolio_def)
  have buy: "pf_positions (on_fill (on_fill (new_portfolio 1000) sell_10_at_100) buy_10_at_90)
       = [(''A'', \<lparr>pos_symbol = ''A'', pos_quantity = 10, pos_avg_entry = 90,
                   pos_stop_loss = None, pos_take_profit = None, pos_realized_pnl = 0\<rparr>)]"
    by (simp add: buy_without_position sell buy_10_at_90_def)
  have buy_pnl: "map tr_pnl (pf_trades (on_fill (on_fill (new_portfolio 1000) sell_10_at_100) buy_10_at_90))
       = [0, 0]"
    by (simp add: buy_records_no_pnl buy_10_at_90_def sell_pnl)
  show ?thesis using sell buy buy_pnl by simp
qed

subsection \<open>Mark-to-market\<close>

lemma mark_loop_sums:
  "mark_loop market_events ps (h, u) =
     (h + (\<Sum>(s, pos)\<leftarrow>ps. pos_quantity pos * mark_price market_events s pos),
      u + (\<Sum>(s, pos)\<leftarrow>ps. (mark_price market_events s pos - pos_avg_entry pos) * pos_quantity pos))"
  by (induction ps arbitrary: h u) (auto simp: market_value_def unrealized_pnl_def Let_def)

text \<open>
  Claim C7: in the snapshot that \<^verbatim>\<open>mark_to_market\<close> appends, the equity is the cash plus
  the sum over the open positions of the quantity times the price the position is valued
  at: the close of the bar of its symbol when there is one, the position's average entry
  otherwise. On the reals the two sides are equal, so their distance is below \<open>10\<^sup>-\<^sup>6\<close>.
\<close>

theorem mark_to_market_equity:
  "(let p' = fst (mark_to_market p ts market_events);
        snap = last (pf_equity_curve p');
        valued = (\<Sum>(s, pos)\<leftarrow>pf_positions p'.
                    pos_quantity pos * (case map_of market_events s of
                                          Some bar \<Rightarrow> bar_close bar
                                        | None \<Rightarrow> pos_avg_entry pos))
    in pf_equity_curve p' = pf_equity_curve p @ [snap]
       \<and> snap_timestamp snap = ts
       \<and> snap_cash snap = pf_cash p'
       \<and> snap_equity snap = snap_cash snap + valued
       \<and> \<bar>snap_cash snap + valued - snap_equity snap\<bar> < 1 / 10 ^ 6
       \<and> snd (mark_to_market p ts market_events) = snap_equity snap)"
  by (simp add: mark_to_market_def mark_loop_sums Let_def split_beta mark_price_def)

subsection \<open>Average true range\<close>

lemma length_true_ranges: "length (true_ranges df) = length df - 1"
  by (induction df rule: true_ranges.induct) auto

lemma true_ranges_nth: "Suc j < length df \<Longrightarrow> true_ranges df ! j = spec_true_range df (Suc j)"
proof (induction df arbitrary: j rule: true_ranges.induct)
  case (1 prev row rest)
  then show ?case by (cases j) (auto simp: spec_true_range_def)
qed auto

lemma sum_list_drop_nth: "sum_list (drop k xs) = (\<Sum>i = k..<length xs. (xs ! i :: real))"
proof (cases "k \<le> length xs")
  case True
  have "sum_list (drop k xs) = (\<Sum>i = 0..<length xs - k. drop k xs ! i)"
    by (simp add: sum_list_sum_nth atLeast0LessThan)
  also have "\<dots> = (\<Sum>i = 0..<length xs - k. xs ! (i + k))"
    by (intro sum.cong) (auto simp: add.commute)
  also have "\<dots> = (\<Sum>i = k..<length xs. xs ! i)"
    using True sum.shift_bounds_nat_ivl[of "\<lambda>i. xs ! i" 0 k "length xs - k"] by simp
  finally show ?thesis .
qed simp

lemma compute_atr_enough_rows:
  assumes "1 \<le> period" and "period + 1 \<le> int (length df)"
  shows "compute_atr df period =
     Some ((\<Sum>i = length df - nat period..<length df. spec_true_range df i) / real_of_int period)"
proof -
  let ?tr = "true_ranges df"
  let ?k = "length ?tr - nat period"
  have len: "length ?tr = length df - 1" by (rule length_true_ranges)
  have slice: "slice_from (- period) ?tr = drop ?k ?tr"
    using assms by (simp add: slice_from_last_n)
  have n: "length (drop ?k ?tr) = nat period" using assms len by auto
  have ne: "drop ?k ?tr \<noteq> []" using n assms by auto
  have "sum_list (drop ?k ?tr) = (\<Sum>i = ?k..<length ?tr. ?tr ! i)" by (rule sum_list_drop_nth)
  also have "\<dots> = (\<Sum>i = ?k..<length ?tr. spec_true_range df (Suc i))"
    using len by (intro sum.cong) (auto simp: true_ranges_nth)
  also have "\<dots> = (\<Sum>i = Suc ?k..<Suc (length ?tr). spec_true_range df i)"
    using sum.shift_bounds_Suc_ivl[of "spec_true_range df" ?k "length ?tr"] by simp
  also have "Suc ?k = length df - nat period" using assms len by auto
  also have "Suc (length ?tr) = length df" using assms len by auto
  finally have s: "sum_list (drop ?k ?tr)
      = (\<Sum>i = length df - nat period..<length df. spec_true_range df i)" .
  show ?thesis using assms ne n s by (simp add: compute_atr_def np_mean_def slice)
qed

lemma compute_atr_few_rows:
  "int (length df) < period + 1 \<Longrightarrow>
     compute_atr df period = None \<and> atr_size sz eqty price (compute_atr df period) strength = Inr 0"
  by (simp add: compute_atr_def atr_size_def)

text \<open>
  With the ATR sizer, a LONG or SHORT signal whose history is too short for the ATR
  produces no order: the sizer returns 0 and the loop continues.
\<close>

lemma short_history_skips_signal:
  assumes "rm_sizer rm = ATRPositionSizer sz"
    and "map_of market_events (sig_symbol sg) = Some bar"
    and "history data (sig_symbol sg) (sig_timestamp sg) (Some (rm_atr_period rm + 5)) = Inr hist"
    and "int (length hist) < rm_atr_period rm + 1"
    and "sig_direction sg \<noteq> FLAT"
  shows "process_signal rm sg market_events data eqty opos counter = Inr ([], counter)"
  using assms
  by (cases "sig_direction sg")
     (simp_all add: process_signal_def Let_def compute_atr_def atr_size_def)

text \<open>
  For a period of at least 1, \<^verbatim>\<open>compute_atr(history, period)\<close> is the arithmetic mean of
  the last \<open>period\<close> true ranges of the history,
  \<open>TR\<^sub>i = max(H\<^sub>i - L\<^sub>i, |H\<^sub>i - C\<^sub>i\<^sub>-\<^sub>1|, |L\<^sub>i - C\<^sub>i\<^sub>-\<^sub>1|)\<close>, those of the rows
  \<open>length df - period, \<dots>, length df - 1\<close>; and for every period, with fewer than
  \<open>period + 1\<close> bars it is NaN, and the ATR sizer then returns the quantity 0.
\<close>

theorem compute_atr_mean_of_true_ranges:
  "(1 \<le> period \<and> period + 1 \<le> int (length df) \<longrightarrow>
      compute_atr df period =
        Some ((\<Sum>i = length df - nat period..<length df. spec_true_range df i)
                / real_of_int period))
   \<and> (int (length df) < period + 1 \<longrightarrow>
        compute_atr df period = None
        \<and> atr_size sz eqty price (compute_atr df period) strength = Inr 0)"
  using compute_atr_enough_rows compute_atr_few_rows by blast

theorem compute_atr_mean_of_true_ranges_witness:
  "compute_atr three_rows 2 = Some 2
   \<and> compute_atr [bar_row 1 9 10 8 9] 2 = None
   \<and> atr_size demo_sizer 100000 100 (compute_atr [bar_row 1 9 10 8 9] 2) 1 = Inr 0"
  using compute_atr_mean_of_true_ranges [of 2 three_rows]
        compute_atr_mean_of_true_ranges [of 2 "[bar_row 1 9 10 8 9]" demo_sizer 100000 100 1]
  by (auto simp: three_rows_def bar_row_def spec_true_range_def eval_nat_numeral
                 sum.atLeast_Suc_lessThan)

text \<open>
  Claim C8: \<^verbatim>\<open>compute_atr(history, period)\<close> returns the arithmetic mean of the last
  \<open>period\<close> true ranges of the history, and NaN whenever the history has fewer than
  \<open>period + 1\<close> bars, the sizer then returning the quantity 0.
  For the period 0 the slice \<^verbatim>\<open>tr[-period:]\<close> is \<^verbatim>\<open>tr[0:]\<close>, all the true ranges: with four
  rows, whose true ranges are 3, 1 and 4, \<^verbatim>\<open>compute_atr\<close> returns their mean 8/3, where the
  last 0 true ranges have no mean (\<^verbatim>\<open>np.mean\<close> of an empty array is NaN), and the ATR sizer
  sizes a position of 187 shares from it instead of returning 0.
\<close>

theorem compute_atr_period_zero_averages_all:
  "true_ranges four_rows = [3, 1, 4]
   \<and> compute_atr four_rows 0 = Some (8 / 3)
   \<and> atr_size demo_sizer 100000 100 (compute_atr four_rows 0) 1 = Inr 187"
proof -
  have tr: "true_ranges four_rows = [3, 1, 4]"
    by (simp add: four_rows_def bar_row_def)
  have atr: "compute_atr four_rows 0 = Some (8 / 3)"
    unfolding compute_atr_def tr by (simp add: four_rows_def slice_from_def np_mean_def)
  have "atr_size demo_sizer 100000 100 (Some (8 / 3)) 1 = Inr 187"
    by (simp add: atr_size_def demo_sizer_def Let_def)
  with tr atr show ?thesis by simp
qed

subsection \<open>The cap on open long positions\<close>

lemma process_signal_long_capped:
  assumes "\<not> rm_allow_short rm" "sig_direction sg = LONG" "rm_max_open_positions rm \<le> open_longs opos"
  shows "case process_signal rm sg me data eqty opos counter of
           Inl err \<Rightarrow> err = KeyError
         | Inr (ords, counter') \<Rightarrow> ords = [] \<and> counter' = counter"
  using assms
  by (auto simp: process_signal_def Let_def history_def split: option.splits sum.splits)

lemma process_signals_drop_longs:
  assumes "\<not> rm_allow_short rm" "rm_max_open_positions rm \<le> open_longs opos"
    "process_signals rm sgs me data eqty opos counter = Inr res"
  shows "process_signals rm (filter (\<lambda>sg. sig_direction sg \<noteq> LONG) sgs) me data eqty opos counter = Inr res"
  using assms(3)
proof (induction sgs arbitrary: counter res)
  case Nil
  then show ?case by simp
next
  case (Cons sg sgs)
  show ?case
  proof (cases "sig_direction sg = LONG")
    case True
    from Cons.prems obtain ords c1 where a: "process_signal rm sg me data eqty opos counter = Inr (ords, c1)"
      by (auto split: sum.splits)
    have "case process_signal rm sg me data eqty opos counter of
            Inl err \<Rightarrow> err = KeyError
          | Inr (ords, counter') \<Rightarrow> ords = [] \<and> counter' = counter"
      by (rule process_signal_long_capped[OF assms(1) True assms(2)])
    with a have b: "ords = []" "c1 = counter" by auto
    from Cons.prems a b have "process_signals rm sgs me data eqty opos counter = Inr res"
      by (auto split: sum.splits)
    then show ?thesis using Cons.IH True by simp
  next
    case False
    then show ?thesis using Cons.prems Cons.IH
      by (auto split: sum.splits)
  qed
qed

lemma format_id_1: "format_id (Suc 0) = ''ORD-000001''"
  by (simp add: format_id_def zfill6_def digits.simps digit_char_def eval_nat_numeral)

text \<open>
  Claim C6: a LONG signal is skipped, and no order emitted for it, when the number of
  open long positions has reached \<^verbatim>\<open>max_open_positions\<close>, whatever \<^verbatim>\<open>allow_short\<close> is.
  The test of the code is \<^verbatim>\<open>not self.allow_short and len(...) >= self.max_open_positions\<close>:
  with shorting allowed the cap is not applied. Here one long position is open, the
  cap is 1, and the LONG signal for a second symbol becomes a BUY order of 50 shares.
\<close>

theorem long_signal_not_skipped_when_shorting:
  "rm_allow_short (capped_manager True) \<and> sig_direction (long_signal 1 ''B'' None) = LONG
   \<and> rm_max_open_positions (capped_manager True) \<le> open_longs [(''A'', 10)]
   \<and> process_signal (capped_manager True) (long_signal 1 ''B'' None) [(''B'', flat_bar 1 ''B'' 100)]
       [(''B'', [flat_row 1 100])] 100000 [(''A'', 10)] 0
     = Inr ([\<lparr>ord_timestamp = 1, ord_symbol = ''B'', ord_order_type = MARKET, ord_side = BUY,
            ord_quantity = 50, ord_limit_price = None, ord_stop_loss = None,
            ord_take_profit = None, ord_order_id = ''ORD-000001'', ord_status = PENDING\<rparr>], 1)"
  by (simp add: capped_manager_def long_signal_def open_longs_def process_signal_def flat_bar_def
       history_def flat_row_def slice_from_def compute_atr_def fixed_fraction_size_def py_or_def
       new_order_def next_id_def format_id_1)

lemma process_signal_cap_unused:
  "rm_allow_short rm \<Longrightarrow>
     process_signal (rm\<lparr>rm_max_open_positions := cap\<rparr>) sg me data eqty opos counter
       = process_signal rm sg me data eqty opos counter"
  by (simp add: process_signal_def Let_def
           cong: option.case_cong sum.case_cong signal_direction.case_cong if_cong)

lemma process_signals_cap_unused:
  "rm_allow_short rm \<Longrightarrow>
     process_signals (rm\<lparr>rm_max_open_positions := cap\<rparr>) sgs me data eqty opos counter
       = process_signals rm sgs me data eqty opos counter"
  by (induction sgs arbitrary: counter)
     (simp_all add: process_signal_cap_unused cong: sum.case_cong prod.case_cong)

text \<open>
  Claim C6, amended: when \<^verbatim>\<open>allow_short\<close> is false and the number of open long positions
  has reached \<^verbatim>\<open>max_open_positions\<close>, the loop body emits no order for a LONG signal and
  leaves the order counter as it is (or the lookup of the symbol's history has raised
  \<^verbatim>\<open>KeyError\<close> before the test), and \<^verbatim>\<open>process_signals\<close> returns what it returns for
  the signals without the LONG ones. When \<^verbatim>\<open>allow_short\<close> is true the cap is not applied:
  what the loop body and \<^verbatim>\<open>process_signals\<close> return is the same for every value \<open>cap\<close> of
  \<^verbatim>\<open>max_open_positions\<close>.
\<close>

theorem long_signal_skipped_at_cap:
  "(\<not> rm_allow_short rm \<and> rm_max_open_positions rm \<le> open_longs opos \<longrightarrow>
      (sig_direction sg = LONG \<longrightarrow>
         (case process_signal rm sg me data eqty opos counter of
            Inl err \<Rightarrow> err = KeyError
          | Inr (ords, counter') \<Rightarrow> ords = [] \<and> counter' = counter))
      \<and> (process_signals rm sgs me data eqty opos counter = Inr res \<longrightarrow>
           process_signals rm (filter (\<lambda>sg. sig_direction sg \<noteq> LONG) sgs) me data eqty opos
             counter = Inr res))
   \<and> (rm_allow_short rm \<longrightarrow>
        process_signal (rm\<lparr>rm_max_open_positions := cap\<rparr>) sg me data eqty opos counter
          = process_signal rm sg me data eqty opos counter
        \<and> process_signals (rm\<lparr>rm_max_open_positions := cap\<rparr>) sgs me data eqty opos counter
          = process_signals rm sgs me data eqty opos counter)"
proof (intro conjI impI)
  assume "\<not> rm_allow_short rm \<and> rm_max_open_positions rm \<le> open_longs opos"
    and "sig_direction sg = LONG"
  then show "case process_signal rm sg me data eqty opos counter of
               Inl err \<Rightarrow> err = KeyError
             | Inr (ords, counter') \<Rightarrow> ords = [] \<and> counter' = counter"
    by (intro process_signal_long_capped) simp_all
next
  assume "\<not> rm_allow_short rm \<and> rm_max_open_positions rm \<le> open_longs opos"
    and "process_signals rm sgs me data eqty opos counter = Inr res"
  then show "process_signals rm (filter (\<lambda>sg. sig_direction sg \<noteq> LONG) sgs) me data eqty opos
               counter = Inr res"
    by (intro process_signals_drop_longs) simp_all
next
  assume "rm_allow_short rm"
  then show "process_signal (rm\<lparr>rm_max_open_positions := cap\<rparr>) sg me data eqty opos counter
          = process_signal rm sg me data eqty opos counter"
    by (rule process_signal_cap_unused)
next
  assume "rm_allow_short rm"
  then show "process_signals (rm\<lparr>rm_max_open_positions := cap\<rparr>) sgs me data eqty opos counter
          = process_signals rm sgs me data eqty opos counter"
    by (rule process_signals_cap_unused)
qed

theorem long_signal_skipped_at_cap_witness:
  "rm_allow_short (capped_manager False) = False
   \<and> rm_max_open_positions (capped_manager False) \<le> open_longs [(''A'', 10)]
   \<and> sig_direction (long_signal 1 ''B'' None) = LONG
   \<and> process_signal (capped_manager False) (long_signal 1 ''B'' None) [(''B'', flat_bar 1 ''B'' 100)]
       [(''B'', [flat_row 1 100])] 100000 [(''A'', 10)] 0 = Inr ([], 0)
   \<and> rm_allow_short (capped_manager True)
   \<and> process_signal ((capped_manager True)\<lparr>rm_max_open_positions := 0\<rparr>)
       (long_signal 1 ''B'' None) [(''B'', flat_bar 1 ''B'' 100)]
       [(''B'', [flat_row 1 100])] 100000 [(''A'', 10)] 0
     = Inr ([\<lparr>ord_timestamp = 1, ord_symbol = ''B'', ord_order_type = MARKET, ord_side = BUY,
            ord_quantity = 50, ord_limit_price = None, ord_stop_loss = None,
            ord_take_profit = None, ord_order_id = ''ORD-000001'', ord_status = PENDING\<rparr>], 1)"
proof -
  have capped: "rm_allow_short (capped_manager False) = False
   \<and> rm_max_open_positions (capped_manager False) \<le> open_longs [(''A'', 10)]
   \<and> sig_direction (long_signal 1 ''B'' None) = LONG
   \<and> process_signal (capped_manager False) (long_signal 1 ''B'' None) [(''B'', flat_bar 1 ''B'' 100)]
       [(''B'', [flat_row 1 100])] 100000 [(''A'', 10)] 0 = Inr ([], 0)"
    using long_signal_skipped_at_cap [where rm = "capped_manager False" and opos = "[(''A'', 10)]"
          and sg = "long_signal 1 ''B'' None" and me = "[(''B'', flat_bar 1 ''B'' 100)]"
          and data = "[(''B'', [flat_row 1 100])]" and eqty = 100000 and counter = 0
          and sgs = "[]" and res = "([], 0)"]
    by (simp add: capped_manager_def long_signal_def open_longs_def process_signal_def flat_bar_def
         history_def flat_row_def slice_from_def)
  have shorting: "rm_allow_short (capped_manager True)"
    by (simp add: capped_manager_def)
  have uncapped: "process_signal (capped_manager True) (long_signal 1 ''B'' None)
       [(''B'', flat_bar 1 ''B'' 100)] [(''B'', [flat_row 1 100])] 100000 [(''A'', 10)] 0
     = Inr ([\<lparr>ord_timestamp = 1, ord_symbol = ''B'', ord_order_type = MARKET, ord_side = BUY,
            ord_quantity = 50, ord_limit_price = None, ord_stop_loss = None,
            ord_take_profit = None, ord_order_id = ''ORD-000001'', ord_status = PENDING\<rparr>], 1)"
    by (simp add: capped_manager_def long_signal_def open_longs_def process_signal_def flat_bar_def
         history_def flat_row_def slice_from_def compute_atr_def fixed_fraction_size_def py_or_def
         new_order_def next_id_def format_id_1)
  from long_signal_skipped_at_cap [where rm = "capped_manager True" and cap = 0
          and sg = "long_signal 1 ''B'' None" and me = "[(''B'', flat_bar 1 ''B'' 100)]"
          and data = "[(''B'', [flat_row 1 100])]" and eqty = 100000 and opos = "[(''A'', 10)]"
          and counter = 0] shorting
  have "process_signal ((capped_manager True)\<lparr>rm_max_open_positions := 0\<rparr>)
       (long_signal 1 ''B'' None) [(''B'', flat_bar 1 ''B'' 100)]
       [(''B'', [flat_row 1 100])] 100000 [(''A'', 10)] 0
     = process_signal (capped_manager True) (long_signal 1 ''B'' None)
       [(''B'', flat_bar 1 ''B'' 100)] [(''B'', [flat_row 1 100])] 100000 [(''A'', 10)] 0"
    by blast
  with capped shorting uncapped show ?thesis by simp
qed

subsection \<open>The broker's pending queue\<close>

lemma process_items_nth:
  "process_items b me m items = Inr outs \<Longrightarrow>
     length outs = length items \<and> (\<forall>i<length items. process_item b me m (items ! i) = Inr (outs ! i))"
proof (induction items arbitrary: outs)
  case Nil
  then show ?case by simp
next
  case (Cons item items)
  then obtain out outs' where o: "process_item b me m item = Inr out"
      "process_items b me m items = Inr outs'" "outs = out # outs'"
    by (auto split: sum.splits)
  with Cons.IH[OF o(2)] show ?case by (auto simp: nth_Cons split: nat.splits)
qed

lemma still_pending_set: "it \<in> set (still_pending outs) \<longleftrightarrow> Kept it \<in> set outs"
  by (induction outs rule: still_pending.induct) auto

lemma process_item_kept:
  "process_item b me m item = Inr (Kept item') \<Longrightarrow>
     item' = item\<lparr>it_bars_waited := it_bars_waited item + 1\<rparr>
     \<and> (map_of me (ord_symbol (it_order item)) \<noteq> None \<longrightarrow> it_bars_waited item' < br_max_bars_pending b)"
  by (auto simp: process_item_def Let_def split: option.splits sum.splits if_splits)

lemma process_item_no_bar:
  "map_of me (ord_symbol (it_order item)) = None \<Longrightarrow>
     process_item b me m item = Inr (Kept (item\<lparr>it_bars_waited := it_bars_waited item + 1\<rparr>))"
  by (simp add: process_item_def Let_def)

lemma process_item_expired:
  "map_of me (ord_symbol (it_order item)) = Some bar \<Longrightarrow> try_fill (it_order item) bar = Inr None
     \<Longrightarrow> br_max_bars_pending b \<le> it_bars_waited item + 1
     \<Longrightarrow> process_item b me m item = Inr (Cancelled ((it_order item)\<lparr>ord_status := CANCELLED\<rparr>))"
  by (simp add: process_item_def Let_def)

text \<open>
  Claim C4: every order in the pending queue has \<^verbatim>\<open>bars_waited \<le> max_bars_pending\<close> at all
  times, also across bars on which its symbol has no bar, and an order that reaches the
  limit unfilled is cancelled and removed.
  \<^verbatim>\<open>process_bar\<close> increments \<^verbatim>\<open>bars_waited\<close> and then, when the bar map has no bar for
  the order's symbol, keeps the entry and continues, before the test against
  \<^verbatim>\<open>max_bars_pending\<close>. With a limit of 1, an order for X is still queued, still PENDING,
  with \<^verbatim>\<open>bars_waited = 2\<close> after two bars that carry the symbol A only.
\<close>

theorem pending_wait_exceeds_limit_without_bar:
  "process_bar (queued_broker 1 [(''ORD-000001'', 0)]) [(''A'', flat_bar 1 ''A'' 100)] Map.empty
     = Inr (queued_broker 1 [(''ORD-000001'', 1)], [],
            [Kept \<lparr>it_order = limit_buy_90 ''ORD-000001'', it_bars_waited = 1\<rparr>])
   \<and> process_bar (queued_broker 1 [(''ORD-000001'', 1)]) [(''A'', flat_bar 2 ''A'' 100)] Map.empty
     = Inr (queued_broker 1 [(''ORD-000001'', 2)], [],
            [Kept \<lparr>it_order = limit_buy_90 ''ORD-000001'', it_bars_waited = 2\<rparr>])
   \<and> \<not> it_bars_waited (hd (br_pending (queued_broker 1 [(''ORD-000001'', 2)])))
         \<le> br_max_bars_pending (queued_broker 1 [(''ORD-000001'', 2)])
   \<and> ord_status (it_order (hd (br_pending (queued_broker 1 [(''ORD-000001'', 2)])))) = PENDING"
  by (simp add: process_bar_def queued_broker_def process_item_no_bar limit_buy_90_def)

text \<open>
  Claim C4, amended: after \<^verbatim>\<open>process_bar\<close>, every queued order whose symbol had a bar in
  the call has \<^verbatim>\<open>bars_waited < max_bars_pending\<close>; the queue consists of the entries the
  loop kept; an order whose symbol had a bar, that did not fill and whose incremented
  \<^verbatim>\<open>bars_waited\<close> has reached the limit has its status set to CANCELLED and is not kept;
  and an order whose symbol had no bar is kept with \<^verbatim>\<open>bars_waited\<close> incremented,
  whatever the limit.
\<close>

theorem pending_wait_bounded_when_bar_present:
  assumes "process_bar b me m = Inr (b', fills, outs)"
  shows "(\<forall>it\<in>set (br_pending b').
            map_of me (ord_symbol (it_order it)) \<noteq> None \<longrightarrow> it_bars_waited it < br_max_bars_pending b')
       \<and> br_pending b' = still_pending outs
       \<and> length outs = length (br_pending b)
       \<and> (\<forall>i<length outs. \<forall>bar.
             map_of me (ord_symbol (it_order (br_pending b ! i))) = Some bar
             \<and> try_fill (it_order (br_pending b ! i)) bar = Inr None
             \<and> br_max_bars_pending b \<le> it_bars_waited (br_pending b ! i) + 1
             \<longrightarrow> outs ! i = Cancelled ((it_order (br_pending b ! i))\<lparr>ord_status := CANCELLED\<rparr>))
       \<and> (\<forall>i<length outs.
             map_of me (ord_symbol (it_order (br_pending b ! i))) = None
             \<longrightarrow> outs ! i = Kept ((br_pending b ! i)\<lparr>it_bars_waited := it_bars_waited (br_pending b ! i) + 1\<rparr>))"
proof -
  from assms have items: "process_items b me m (br_pending b) = Inr outs"
    and b': "b' = b\<lparr>br_pending := still_pending outs\<rparr>"
    by (auto simp: process_bar_def split: sum.splits)
  note nth = process_items_nth[OF items]
  have 1: "\<forall>it\<in>set (br_pending b').
            map_of me (ord_symbol (it_order it)) \<noteq> None \<longrightarrow> it_bars_waited it < br_max_bars_pending b'"
  proof (intro ballI impI)
    fix it assume it: "it \<in> set (br_pending b')" and bar: "map_of me (ord_symbol (it_order it)) \<noteq> None"
    then have "Kept it \<in> set outs" by (simp add: b' still_pending_set)
    then obtain i where i: "i < length outs" "outs ! i = Kept it" by (auto simp: in_set_conv_nth)
    with nth have pi: "process_item b me m (br_pending b ! i) = Inr (Kept it)" by auto
    from process_item_kept[OF pi] bar show "it_bars_waited it < br_max_bars_pending b'"
      by (auto simp: b')
  qed
  have 4: "\<forall>i<length outs. \<forall>bar.
             map_of me (ord_symbol (it_order (br_pending b ! i))) = Some bar
             \<and> try_fill (it_order (br_pending b ! i)) bar = Inr None
             \<and> br_max_bars_pending b \<le> it_bars_waited (br_pending b ! i) + 1
             \<longrightarrow> outs ! i = Cancelled ((it_order (br_pending b ! i))\<lparr>ord_status := CANCELLED\<rparr>)"
  proof (intro allI impI)
    fix i bar
    assume i: "i < length outs"
      and h: "map_of me (ord_symbol (it_order (br_pending b ! i))) = Some bar
             \<and> try_fill (it_order (br_pending b ! i)) bar = Inr None
             \<and> br_max_bars_pending b \<le> it_bars_waited (br_pending b ! i) + 1"
    from nth i have "process_item b me m (br_pending b ! i) = Inr (outs ! i)" by simp
    moreover from h have "process_item b me m (br_pending b ! i)
        = Inr (Cancelled ((it_order (br_pending b ! i))\<lparr>ord_status := CANCELLED\<rparr>))"
      by (intro process_item_expired) auto
    ultimately show "outs ! i = Cancelled ((it_order (br_pending b ! i))\<lparr>ord_status := CANCELLED\<rparr>)"
      by simp
  qed
  have 5: "\<forall>i<length outs.
             map_of me (ord_symbol (it_order (br_pending b ! i))) = None
             \<longrightarrow> outs ! i = Kept ((br_pending b ! i)\<lparr>it_bars_waited := it_bars_waited (br_pending b ! i) + 1\<rparr>)"
  proof (intro allI impI)
    fix i
    assume i: "i < length outs"
      and h: "map_of me (ord_symbol (it_order (br_pending b ! i))) = None"
    from nth i have "process_item b me m (br_pending b ! i) = Inr (outs ! i)" by simp
    with process_item_no_bar[OF h, of b m]
    show "outs ! i = Kept ((br_pending b ! i)\<lparr>it_bars_waited := it_bars_waited (br_pending b ! i) + 1\<rparr>)"
      by simp
  qed
  show ?thesis using 1 4 5 nth b' by simp
qed

theorem pending_wait_bounded_when_bar_present_witness:
  "process_bar (queued_broker 2 [(''ORD-000001'', 1), (''ORD-000002'', 0)])
       [(''X'', flat_bar 5 ''X'' 100)] Map.empty
     = Inr (queued_broker 2 [(''ORD-000002'', 1)], [],
            [Cancelled ((limit_buy_90 ''ORD-000001'')\<lparr>ord_status := CANCELLED\<rparr>),
             Kept \<lparr>it_order = limit_buy_90 ''ORD-000002'', it_bars_waited = 1\<rparr>])
   \<and> it_bars_waited (hd (br_pending (queued_broker 2 [(''ORD-000002'', 1)])))
       < br_max_bars_pending (queued_broker 2 [(''ORD-000002'', 1)])"
proof -
  have run: "process_bar (queued_broker 2 [(''ORD-000001'', 1), (''ORD-000002'', 0)])
       [(''X'', flat_bar 5 ''X'' 100)] Map.empty
     = Inr (queued_broker 2 [(''ORD-000002'', 1)], [],
            [Cancelled ((limit_buy_90 ''ORD-000001'')\<lparr>ord_status := CANCELLED\<rparr>),
             Kept \<lparr>it_order = limit_buy_90 ''ORD-000002'', it_bars_waited = 1\<rparr>])"
    by (simp add: process_bar_def queued_broker_def process_item_def try_fill_def limit_buy_90_def
                  flat_bar_def)
  have queued: "hd (br_pending (queued_broker 2 [(''ORD-000002'', 1)]))
                  \<in> set (br_pending (queued_broker 2 [(''ORD-000002'', 1)]))"
    by (simp add: queued_broker_def)
  have bar: "map_of [(''X'', flat_bar 5 ''X'' 100)]
               (ord_symbol (it_order (hd (br_pending (queued_broker 2 [(''ORD-000002'', 1)]))))) \<noteq> None"
    by (simp add: queued_broker_def limit_buy_90_def)
  from pending_wait_bounded_when_bar_present [OF run] queued bar
  have "it_bars_waited (hd (br_pending (queued_broker 2 [(''ORD-000002'', 1)])))
       < br_max_bars_pending (queued_broker 2 [(''ORD-000002'', 1)])"
    by blast
  with run show ?thesis by simp
qed

subsection \<open>Order ids\<close>

text \<open>Different counter values print as different ids.\<close>

lemma digit_value_digit_char: "k < 10 \<Longrightarrow> digit_value (digit_char k) = k"
proof -
  assume "k < 10"
  then have "k \<in> {0, 1, 2, 3, 4, 5, 6, 7, 8, 9}" by auto
  then show ?thesis by (auto simp: digit_value_def digit_char_def)
qed

lemma digits_value_snoc: "digits_value (s @ [ch]) = 10 * digits_value s + digit_value ch"
  by (simp add: digits_value_def)

lemma digits_value_digits: "digits_value (digits n) = n"
proof (induction n rule: digits.induct)
  case (1 n)
  show ?case
  proof (cases "n < 10")
    case True
    then show ?thesis by (simp add: digits.simps[of n] digits_value_def digit_value_digit_char)
  next
    case False
    with 1 show ?thesis
      by (simp add: digits.simps[of n] digits_value_snoc digit_value_digit_char)
  qed
qed

lemma digits_value_zeros: "digits_value (replicate k (CHR ''0'') @ s) = digits_value s"
proof -
  have "foldl (\<lambda>acc ch. 10 * acc + digit_value ch) 0 (replicate k (CHR ''0'')) = 0"
    by (induction k) (simp_all add: digit_value_def)
  then show ?thesis by (simp add: digits_value_def)
qed

lemma format_id_inj: "format_id n = format_id m \<Longrightarrow> n = m"
proof -
  assume "format_id n = format_id m"
  then have "zfill6 (digits n) = zfill6 (digits m)" by (simp add: format_id_def)
  then have "digits_value (zfill6 (digits n)) = digits_value (zfill6 (digits m))" by simp
  then show "n = m" by (simp add: zfill6_def digits_value_zeros digits_value_digits)
qed

lemma set_ids_from: "set (ids_from c n) = format_id ` {c + 1 ..< c + 1 + n}"
proof (induction n arbitrary: c)
  case (Suc n)
  have "{c + 1 ..< c + 1 + Suc n} = insert (c + 1) {c + 1 + 1 ..< c + 1 + 1 + n}" by auto
  then show ?case using Suc[of "c + 1"] by simp
qed simp

lemma distinct_ids_from: "distinct (ids_from c n)"
  by (induction n arbitrary: c) (auto simp: set_ids_from dest: format_id_inj)

lemma ids_from_add: "ids_from c (n + k) = ids_from c n @ ids_from (c + n) k"
  by (induction n arbitrary: c) auto

lemma length_ids_from: "length (ids_from c n) = n"
  by (induction n arbitrary: c) auto

lemma ids_from_differ:
  assumes "0 < n" and "c \<noteq> c'"
  shows "ids_from c n \<noteq> ids_from c' n"
proof
  assume eq: "ids_from c n = ids_from c' n"
  from assms(1) obtain m where n: "n = Suc m" by (cases n) auto
  from eq have "format_id (c + 1) = format_id (c' + 1)" unfolding n by simp
  then have "c + 1 = c' + 1" by (rule format_id_inj)
  with assms(2) show False by simp
qed

subsection \<open>The counter only stamps the orders\<close>

text \<open>
  Which orders the risk manager creates does not depend on the value of the counter; the
  counter decides their ids alone.
\<close>

lemma stamped_Nil: "stamped c [] []" by (simp add: stamped_def)

lemma stamped_append:
  "stamped c t1 o1 \<Longrightarrow> stamped (c + length t1) t2 o2 \<Longrightarrow> stamped c (t1 @ t2) (o1 @ o2)"
  by (simp add: stamped_def ids_from_add)

lemma stamped_length: "stamped c tmpl ords \<Longrightarrow> length ords = length tmpl"
  by (auto simp: stamped_def)

lemma fillable_strip [simp]: "fillable me (strip_order ord) = fillable me ord"
  by (simp add: fillable_def strip_order_def)

lemma stamped_fillable:
  "stamped c tmpl ords \<Longrightarrow> \<forall>ord\<in>set tmpl. fillable me ord \<Longrightarrow> \<forall>ord\<in>set ords. fillable me ord"
  by (auto simp: stamped_def)

lemma uniform_skip: "uniform me (\<lambda>c. Inr ([], c))"
  by (auto simp: uniform_def intro!: exI[of _ "[]"] stamped_Nil)

lemma uniform_error: "uniform me (\<lambda>c. Inl err)"
  by (auto simp: uniform_def)

lemma uniform_new_order:
  assumes "map_of me symb \<noteq> None"
  shows "uniform me (\<lambda>c. let (ord, c') = new_order c ts symb side qty sl tp in Inr ([ord], c'))"
proof -
  let ?t = "strip_order (fst (new_order 0 ts symb side qty sl tp))"
  have "fillable me ?t" using assms by (simp add: fillable_def new_order_def next_id_def strip_order_def)
  moreover have "\<forall>c. \<exists>ords. (let (ord, c') = new_order c ts symb side qty sl tp in Inr ([ord], c'))
       = (Inr (ords, c + length [?t]) :: py_error + (order_event list \<times> nat)) \<and> stamped c [?t] ords"
    by (simp add: new_order_def next_id_def stamped_def strip_order_def)
  ultimately show ?thesis unfolding uniform_def
    by (intro disjI2 exI[of _ "[?t]"]) simp
qed

lemma uniform_seq:
  assumes "uniform me f" and "uniform me g"
  shows "uniform me (\<lambda>c. case f c of Inl err \<Rightarrow> Inl err
                         | Inr (ords, c') \<Rightarrow>
                             (case g c' of Inl err \<Rightarrow> Inl err
                              | Inr (ords', c'') \<Rightarrow> Inr (ords @ ords', c'')))"
proof -
  from assms(1) consider (ferr) err where "\<forall>c. f c = Inl err"
    | (fok) t1 where "\<forall>ord\<in>set t1. fillable me ord"
        "\<forall>c. \<exists>ords. f c = Inr (ords, c + length t1) \<and> stamped c t1 ords"
    unfolding uniform_def by blast
  then show ?thesis
  proof cases
    case ferr
    then show ?thesis by (simp add: uniform_def)
  next
    case fok
    from assms(2) consider (gerr) err where "\<forall>c. g c = Inl err"
      | (gok) t2 where "\<forall>ord\<in>set t2. fillable me ord"
          "\<forall>c. \<exists>ords. g c = Inr (ords, c + length t2) \<and> stamped c t2 ords"
      unfolding uniform_def by blast
    then show ?thesis
    proof cases
      case gerr
      have "\<forall>c. (case f c of Inl err \<Rightarrow> Inl err
                         | Inr (ords, c') \<Rightarrow>
                             (case g c' of Inl err \<Rightarrow> Inl err
                              | Inr (ords', c'') \<Rightarrow> Inr (ords @ ords', c''))) = Inl err"
      proof
        fix c from fok(2) obtain ords where "f c = Inr (ords, c + length t1)" by blast
        then show "(case f c of Inl err \<Rightarrow> Inl err
                         | Inr (ords, c') \<Rightarrow>
                             (case g c' of Inl err \<Rightarrow> Inl err
                              | Inr (ords', c'') \<Rightarrow> Inr (ords @ ords', c''))) = Inl err"
          using gerr by simp
      qed
      then show ?thesis unfolding uniform_def by blast
    next
      case gok
      have "\<forall>c. \<exists>ords. (case f c of Inl err \<Rightarrow> Inl err
                         | Inr (ords, c') \<Rightarrow>
                             (case g c' of Inl err \<Rightarrow> Inl err
                              | Inr (ords', c'') \<Rightarrow> Inr (ords @ ords', c'')))
               = Inr (ords, c + length (t1 @ t2)) \<and> stamped c (t1 @ t2) ords"
      proof
        fix c
        from fok(2) obtain o1 where o1: "f c = Inr (o1, c + length t1)" "stamped c t1 o1" by blast
        from gok(2) obtain o2 where o2: "g (c + length t1) = Inr (o2, c + length t1 + length t2)"
          "stamped (c + length t1) t2 o2" by blast
        show "\<exists>ords. (case f c of Inl err \<Rightarrow> Inl err
                         | Inr (ords, c') \<Rightarrow>
                             (case g c' of Inl err \<Rightarrow> Inl err
                              | Inr (ords', c'') \<Rightarrow> Inr (ords @ ords', c'')))
               = Inr (ords, c + length (t1 @ t2)) \<and> stamped c (t1 @ t2) ords"
          using o1 o2 by (intro exI[of _ "o1 @ o2"]) (simp add: stamped_append add.assoc)
      qed
      moreover have "\<forall>ord\<in>set (t1 @ t2). fillable me ord" using fok(1) gok(1) by auto
      ultimately show ?thesis unfolding uniform_def by blast
    qed
  qed
qed

lemma uniform_if:
  "(P \<Longrightarrow> uniform me f) \<Longrightarrow> (\<not> P \<Longrightarrow> uniform me g) \<Longrightarrow> uniform me (\<lambda>c. if P then f c else g c)"
  by (cases P) simp_all

lemma uniform_case_option:
  "(x = None \<Longrightarrow> uniform me f) \<Longrightarrow> (\<And>y. x = Some y \<Longrightarrow> uniform me (g y))
     \<Longrightarrow> uniform me (\<lambda>c. case x of None \<Rightarrow> f c | Some y \<Rightarrow> g y c)"
  by (cases x) simp_all

lemma uniform_case_sum:
  "(\<And>err. x = Inl err \<Longrightarrow> uniform me (f err)) \<Longrightarrow> (\<And>y. x = Inr y \<Longrightarrow> uniform me (g y))
     \<Longrightarrow> uniform me (\<lambda>c. case x of Inl err \<Rightarrow> f err c | Inr y \<Rightarrow> g y c)"
  by (cases x) simp_all

lemma uniform_case_direction:
  "(d = LONG \<Longrightarrow> uniform me f) \<Longrightarrow> (d = SHORT \<Longrightarrow> uniform me g) \<Longrightarrow> (d = FLAT \<Longrightarrow> uniform me h)
     \<Longrightarrow> uniform me (\<lambda>c. case d of LONG \<Rightarrow> f c | SHORT \<Rightarrow> g c | FLAT \<Rightarrow> h c)"
  by (cases d) simp_all

lemma process_signal_uniform: "uniform me (\<lambda>c. process_signal rm sg me data eqty opos c)"
  unfolding process_signal_def Let_def
  by (intro uniform_case_option uniform_case_sum uniform_case_direction uniform_if
            uniform_skip uniform_error uniform_new_order[unfolded Let_def]) simp_all

lemma process_signals_uniform: "uniform me (\<lambda>c. process_signals rm sgs me data eqty opos c)"
proof (induction sgs)
  case Nil
  show ?case by (simp add: uniform_skip)
next
  case (Cons sg sgs)
  show ?case using uniform_seq[OF process_signal_uniform Cons]
    by simp
qed

lemma check_position_uniform: "uniform me (\<lambda>c. Inr (check_position symb pos me c))"
proof -
  have eq: "(\<lambda>c. Inr (check_position symb pos me c) :: py_error + (order_event list \<times> nat)) =
    (\<lambda>c. case map_of me symb of
        None \<Rightarrow> Inr ([], c)
      | Some bar \<Rightarrow>
          if pd_qty pos = 0 then Inr ([], c)
          else if pd_qty pos > 0 then
                  (if stop_hit (pd_stop_loss pos) bar then
                     (case new_order c (bar_timestamp bar) symb SELL (pd_qty pos) None None of
                      (ord, c') \<Rightarrow> Inr ([ord], c'))
                   else if take_profit_hit (pd_take_profit pos) bar then
                     (case new_order c (bar_timestamp bar) symb SELL (pd_qty pos) None None of
                      (ord, c') \<Rightarrow> Inr ([ord], c'))
                   else Inr ([], c))
                else Inr ([], c))"
    by (auto simp: check_position_def Let_def fun_eq_iff split: option.splits prod.splits)
  show ?thesis unfolding eq
    by (intro uniform_case_option uniform_if uniform_skip uniform_new_order[unfolded Let_def]) simp_all
qed

lemma check_stop_conditions_uniform: "uniform me (\<lambda>c. Inr (check_stop_conditions pd me c))"
proof (induction pd)
  case Nil
  show ?case by (simp add: uniform_skip)
next
  case (Cons a pd)
  obtain symb pos where a: "a = (symb, pos)" by (cases a)
  have "(\<lambda>c. Inr (check_stop_conditions (a # pd) me c) :: py_error + (order_event list \<times> nat))
      = (\<lambda>c. case Inr (check_position symb pos me c) of Inl err \<Rightarrow> Inl err
                         | Inr (ords, c') \<Rightarrow>
                             (case Inr (check_stop_conditions pd me c') of Inl err \<Rightarrow> Inl err
                              | Inr (ords', c'') \<Rightarrow> Inr (ords @ ords', c'')))"
    by (auto simp: a fun_eq_iff split: prod.splits)
  then show ?case using uniform_seq[OF check_position_uniform Cons, of symb pos] by simp
qed

subsection \<open>Orders of the engine fill on the bar that creates them\<close>

lemma submits_fields:
  "eng_feed (foldl (\<lambda>e ord. engine_submit e ord (f ord)) e ords) = eng_feed e"
  "eng_strategies (foldl (\<lambda>e ord. engine_submit e ord (f ord)) e ords) = eng_strategies e"
  "eng_portfolio (foldl (\<lambda>e ord. engine_submit e ord (f ord)) e ords) = eng_portfolio e"
  "eng_risk_manager (foldl (\<lambda>e ord. engine_submit e ord (f ord)) e ords) = eng_risk_manager e"
  by (induction ords arbitrary: e; simp add: engine_submit_def)+

lemma submits_broker:
  "eng_broker (foldl (\<lambda>e ord. engine_submit e ord (f ord)) e ords)
     = (eng_broker e)\<lparr>br_pending := br_pending (eng_broker e) @ map queue_entry ords\<rparr>"
  by (induction ords arbitrary: e) (simp_all add: engine_submit_def submit_def queue_entry_def)

lemma submits_map_other:
  "k \<notin> ord_order_id ` set ords \<Longrightarrow>
     eng_order_strategy_map (foldl (\<lambda>e ord. engine_submit e ord (f ord)) e ords) k
       = eng_order_strategy_map e k"
  by (induction ords arbitrary: e) (simp_all add: engine_submit_def)

lemma submits_map_own:
  "distinct (map ord_order_id ords) \<Longrightarrow> ord \<in> set ords \<Longrightarrow>
     eng_order_strategy_map (foldl (\<lambda>e ord. engine_submit e ord (f ord)) e ords) (ord_order_id ord)
       = Some (f ord)"
proof (induction ords arbitrary: e)
  case (Cons a ords)
  show ?case
  proof (cases "ord = a")
    case True
    with Cons.prems have "ord_order_id a \<notin> ord_order_id ` set ords" by auto
    then have "eng_order_strategy_map
          (foldl (\<lambda>e ord. engine_submit e ord (f ord)) (engine_submit e a (f a)) ords) (ord_order_id a)
        = eng_order_strategy_map (engine_submit e a (f a)) (ord_order_id a)"
      by (rule submits_map_other)
    then show ?thesis using True by (simp add: engine_submit_def)
  next
    case False
    with Cons show ?thesis by simp
  qed
qed simp

lemma process_item_fillable:
  "fillable me ord \<Longrightarrow>
     process_item b me m (queue_entry ord)
       = Inr (Filled (ord\<lparr>ord_status := FILLED\<rparr>) (market_fill b me (stamp_of m ord) ord))"
  by (auto simp: fillable_def process_item_def queue_entry_def try_fill_def market_fill_def
                 stamp_of_def Let_def)

lemma process_items_fillable:
  "\<forall>ord\<in>set ords. fillable me ord \<Longrightarrow>
     process_items b me m (map queue_entry ords)
       = Inr (map (\<lambda>ord. Filled (ord\<lparr>ord_status := FILLED\<rparr>) (market_fill b me (stamp_of m ord) ord)) ords)"
  by (induction ords) (simp_all add: process_item_fillable)

lemma process_bar_fillable:
  assumes "br_pending b = map queue_entry ords" and "\<forall>ord\<in>set ords. fillable me ord"
  shows "\<exists>outs. process_bar b me m
     = Inr (b\<lparr>br_pending := []\<rparr>, map (\<lambda>ord. market_fill b me (stamp_of m ord) ord) ords, outs)"
proof -
  have "still_pending (map (\<lambda>ord. Filled (ord\<lparr>ord_status := FILLED\<rparr>) (market_fill b me (stamp_of m ord) ord)) ords) = []"
    by (induction ords) simp_all
  moreover have "fills_of (map (\<lambda>ord. Filled (ord\<lparr>ord_status := FILLED\<rparr>) (market_fill b me (stamp_of m ord) ord)) ords)
      = map (\<lambda>ord. market_fill b me (stamp_of m ord) ord) ords"
    by (induction ords) simp_all
  ultimately show ?thesis using assms
    by (simp add: process_bar_def process_items_fillable)
qed

subsection \<open>The ledger and the strategies do not read order ids\<close>

lemma record_trade_strip:
  "strip_portfolio (record_trade p fill pnl) = record_trade (strip_portfolio p) (strip_fill fill) pnl"
  by (simp add: strip_portfolio_def record_trade_def strip_trade_def strip_fill_def)

lemma strip_portfolio_simps [simp]:
  "pf_positions (strip_portfolio p) = pf_positions p"
  "pf_cash (strip_portfolio p) = pf_cash p"
  "pf_equity_curve (strip_portfolio p) = pf_equity_curve p"
  "pf_initial_capital (strip_portfolio p) = pf_initial_capital p"
  "pf_total_commission (strip_portfolio p) = pf_total_commission p"
  "pf_total_slippage (strip_portfolio p) = pf_total_slippage p"
  "pf_trades (strip_portfolio p) = map strip_trade (pf_trades p)"
  by (simp_all add: strip_portfolio_def)

lemma strip_fill_simps [simp]:
  "fill_symbol (strip_fill f) = fill_symbol f"
  "fill_side (strip_fill f) = fill_side f"
  "fill_quantity (strip_fill f) = fill_quantity f"
  "fill_price (strip_fill f) = fill_price f"
  "fill_commission (strip_fill f) = fill_commission f"
  "fill_slippage (strip_fill f) = fill_slippage f"
  "fill_timestamp (strip_fill f) = fill_timestamp f"
  "fill_strategy_id (strip_fill f) = fill_strategy_id f"
  by (simp_all add: strip_fill_def)

lemma strip_portfolio_update_positions:
  "strip_portfolio (p\<lparr>pf_positions := ps\<rparr>) = (strip_portfolio p)\<lparr>pf_positions := ps\<rparr>"
  by (simp add: strip_portfolio_def)

lemma process_buy_strip:
  "strip_portfolio (process_buy p fill) = process_buy (strip_portfolio p) (strip_fill fill)"
  by (simp add: process_buy_def Let_def record_trade_strip strip_portfolio_update_positions
           split: option.splits)

lemma process_sell_strip:
  "strip_portfolio (fst (process_sell p fill)) = fst (process_sell (strip_portfolio p) (strip_fill fill))"
  by (simp add: process_sell_def Let_def record_trade_strip strip_portfolio_update_positions
           split: option.splits)

lemma strip_portfolio_update_cash:
  "strip_portfolio (p\<lparr>pf_cash := x\<rparr>) = (strip_portfolio p)\<lparr>pf_cash := x\<rparr>"
  "strip_portfolio (p\<lparr>pf_total_commission := y, pf_total_slippage := z\<rparr>)
     = (strip_portfolio p)\<lparr>pf_total_commission := y, pf_total_slippage := z\<rparr>"
  by (simp_all add: strip_portfolio_def)

lemma on_fill_strip:
  "strip_portfolio (on_fill p fill) = on_fill (strip_portfolio p) (strip_fill fill)"
proof (cases "fill_side fill = BUY")
  case True
  then show ?thesis
    by (simp add: on_fill_def Let_def strip_portfolio_update_cash process_buy_strip[symmetric])
next
  case False
  then show ?thesis
    by (simp add: on_fill_def Let_def split_beta strip_portfolio_update_cash process_sell_strip[symmetric])
qed

lemma tr_pnl_strip [simp]: "tr_pnl (strip_trade t) = tr_pnl t"
  by (simp add: strip_trade_def)

lemma mark_to_market_strip:
  "strip_portfolio (fst (mark_to_market p ts me)) = fst (mark_to_market (strip_portfolio p) ts me)"
  by (simp add: mark_to_market_def Let_def split_beta strip_portfolio_def comp_def)

lemma erase_ids_simps [simp]:
  "eng_feed (erase_ids e) = eng_feed e"
  "eng_strategies (erase_ids e) = eng_strategies e"
  "eng_broker (erase_ids e) = eng_broker e"
  "eng_risk_manager (erase_ids e) = eng_risk_manager e"
  "eng_portfolio (erase_ids e) = strip_portfolio (eng_portfolio e)"
  "eng_order_strategy_map (erase_ids e) = Map.empty"
  by (simp_all add: erase_ids_def)

lemma id_blind_strip: "id_blind strat \<Longrightarrow> strat_on_fill strat (strip_fill fill) st = strat_on_fill strat fill st"
  by (simp add: id_blind_def strip_fill_def)

lemma apply_fill_erase:
  assumes "\<forall>strat\<in>set (eng_strategies e). id_blind strat"
  shows "erase_ids (apply_fill e fill) = apply_fill (erase_ids e) (strip_fill fill)"
proof -
  have "map (\<lambda>strat. strat\<lparr>strat_state := strat_on_fill strat (strip_fill fill) (strat_state strat)\<rparr>) (eng_strategies e)
      = map (\<lambda>strat. strat\<lparr>strat_state := strat_on_fill strat fill (strat_state strat)\<rparr>) (eng_strategies e)"
    using assms by (intro map_cong) (auto simp: id_blind_strip)
  then show ?thesis
    by (simp add: apply_fill_def erase_ids_def on_fill_strip)
qed

lemma id_blind_state [simp]: "id_blind (strat\<lparr>strat_state := st\<rparr>) = id_blind strat"
  by (simp add: id_blind_def)

lemma apply_fill_blind:
  "\<forall>strat\<in>set (eng_strategies e). id_blind strat \<Longrightarrow>
     \<forall>strat\<in>set (eng_strategies (apply_fill e fill)). id_blind strat"
  by (auto simp: apply_fill_def)

lemma apply_fills_blind:
  "\<forall>strat\<in>set (eng_strategies e). id_blind strat \<Longrightarrow>
     \<forall>strat\<in>set (eng_strategies (foldl apply_fill e fills)). id_blind strat"
proof (induction fills arbitrary: e)
  case (Cons f fills)
  then show ?case using apply_fill_blind[of e f] by simp
qed simp

lemma apply_fills_erase:
  "\<forall>strat\<in>set (eng_strategies e). id_blind strat \<Longrightarrow>
     erase_ids (foldl apply_fill e fills) = foldl apply_fill (erase_ids e) (map strip_fill fills)"
proof (induction fills arbitrary: e)
  case (Cons f fills)
  then show ?case using apply_fill_blind[of e f] by (simp add: apply_fill_erase)
qed simp

lemma run_strategies_blind:
  "\<forall>strat\<in>set strats. id_blind strat \<Longrightarrow>
     \<forall>strat\<in>set (fst (run_strategies data ts me strats)). id_blind strat"
  by (induction strats) (auto simp: Let_def split_beta)

subsection \<open>One bar of the loop\<close>

lemma fill_phase_fillable:
  assumes "br_pending (eng_broker e) = map queue_entry ords" and "\<forall>ord\<in>set ords. fillable me ord"
  shows "fill_phase e ts me =
     Inr (finish_bar (foldl apply_fill (e\<lparr>eng_broker := (eng_broker e)\<lparr>br_pending := []\<rparr>\<rparr>)
            (map (\<lambda>ord. market_fill (eng_broker e) me (stamp_of (eng_order_strategy_map e) ord) ord) ords))
          ts me)"
proof -
  from process_bar_fillable[OF assms, of "eng_order_strategy_map e"]
  obtain outs where "process_bar (eng_broker e) me (eng_order_strategy_map e)
     = Inr ((eng_broker e)\<lparr>br_pending := []\<rparr>,
            map (\<lambda>ord. market_fill (eng_broker e) me (stamp_of (eng_order_strategy_map e) ord) ord) ords, outs)"
    by blast
  then show ?thesis by (simp add: fill_phase_def finish_bar_def Let_def split_beta)
qed

lemma finish_bar_erase: "erase_ids (finish_bar e ts me) = finish_bar (erase_ids e) ts me"
  by (simp add: finish_bar_def erase_ids_def mark_to_market_strip)

lemma finish_bar_simps [simp]:
  "eng_broker (finish_bar e ts me) = eng_broker e"
  "eng_strategies (finish_bar e ts me) = eng_strategies e"
  "eng_feed (finish_bar e ts me) = eng_feed e"
  "eng_risk_manager (finish_bar e ts me) = eng_risk_manager e"
  "pf_trades (eng_portfolio (finish_bar e ts me)) = pf_trades (eng_portfolio e)"
  by (simp_all add: finish_bar_def mark_to_market_def Let_def split_beta)

lemma apply_fills_simps [simp]:
  "eng_broker (foldl apply_fill e fills) = eng_broker e"
  "eng_feed (foldl apply_fill e fills) = eng_feed e"
  "eng_risk_manager (foldl apply_fill e fills) = eng_risk_manager e"
  by (induction fills arbitrary: e; simp add: apply_fill_def)+

lemma on_fill_trade_ids:
  "map tr_order_id (pf_trades (on_fill p fill)) = map tr_order_id (pf_trades p) @ [fill_order_id fill]"
  by (simp add: on_fill_trades process_buy_def process_sell_def record_trade_def Let_def
           split: option.splits)

lemma apply_fills_trade_ids:
  "map tr_order_id (pf_trades (eng_portfolio (foldl apply_fill e fills)))
     = map tr_order_id (pf_trades (eng_portfolio e)) @ map fill_order_id fills"
  by (induction fills arbitrary: e) (simp_all add: apply_fill_def on_fill_trade_ids)

lemma market_fill_strip:
  "strip_fill (market_fill b me sid ord) = strip_fill (market_fill b me sid (strip_order ord))"
  by (simp add: market_fill_def strip_fill_def strip_order_def Let_def split: option.splits)

lemma market_fill_id: "fillable me ord \<Longrightarrow> fill_order_id (market_fill b me sid ord) = ord_order_id ord"
  by (auto simp: market_fill_def fillable_def Let_def)

lemma attributed_to_strip: "attributed_to sigs (strip_order ord) = attributed_to sigs ord"
  by (simp add: attributed_to_def strip_order_def)

lemma strip_views [simp]:
  "open_positions_detail (strip_portfolio p) = open_positions_detail p"
  "open_positions (strip_portfolio p) = open_positions p"
  "equity (strip_portfolio p) = equity p"
  by (simp_all add: open_positions_detail_def open_positions_def equity_def)

lemma submit_phase_unfold:
  assumes "check_stop_conditions (open_positions_detail (eng_portfolio e)) me c = (so, c1)"
    and "run_strategies (eng_feed e) ts me (eng_strategies e) = (strats, sigs)"
  shows "submit_phase e c ts me =
     (case process_signals (eng_risk_manager e) sigs me (eng_feed e) (equity (eng_portfolio e))
             (open_positions (eng_portfolio e)) c1 of
        Inl err \<Rightarrow> Inl err
      | Inr (os, c2) \<Rightarrow>
          Inr (foldl (\<lambda>e ord. engine_submit e ord (attributed_to sigs ord))
                 ((foldl (\<lambda>e ord. engine_submit e ord ''__risk__'') e so)\<lparr>eng_strategies := strats\<rparr>) os,
               c2))"
  using assms
  by (simp add: submit_phase_def sweep_and_dispatch_def risk_orders_def submits_fields Let_def)

lemma submit_after_update:
  "engine_submit (e\<lparr>eng_strategies := strats\<rparr>) ord sid = (engine_submit e ord sid)\<lparr>eng_strategies := strats\<rparr>"
  by (simp add: engine_submit_def)

lemma submits_after_update:
  "foldl (\<lambda>e ord. engine_submit e ord (f ord)) (e\<lparr>eng_strategies := strats\<rparr>) ords
     = (foldl (\<lambda>e ord. engine_submit e ord (f ord)) e ords)\<lparr>eng_strategies := strats\<rparr>"
  by (induction ords arbitrary: e) (simp_all add: submit_after_update)

lemma two_rounds:
  fixes e :: "'s engine" and so os :: "order_event list" and strats :: "'s strategy list"
    and sigs :: "signal_event list"
  defines "e1 \<equiv> foldl (\<lambda>e ord. engine_submit e ord ''__risk__'') e so"
  defines "e3 \<equiv> foldl (\<lambda>e ord. engine_submit e ord (attributed_to sigs ord)) (e1\<lparr>eng_strategies := strats\<rparr>) os"
  assumes d: "distinct (map ord_order_id (so @ os))"
  shows "eng_portfolio e3 = eng_portfolio e" "eng_feed e3 = eng_feed e"
    "eng_risk_manager e3 = eng_risk_manager e" "eng_strategies e3 = strats"
    "eng_broker e3 = (eng_broker e)\<lparr>br_pending := br_pending (eng_broker e) @ map queue_entry (so @ os)\<rparr>"
    "map (stamp_of (eng_order_strategy_map e3)) (so @ os)
       = map (\<lambda>ord. ''__risk__'') so @ map (attributed_to sigs) os"
proof -
  have e3: "e3 = (foldl (\<lambda>e ord. engine_submit e ord (attributed_to sigs ord)) e1 os)\<lparr>eng_strategies := strats\<rparr>"
    by (simp add: e3_def submits_after_update)
  show "eng_portfolio e3 = eng_portfolio e" "eng_feed e3 = eng_feed e"
    "eng_risk_manager e3 = eng_risk_manager e" "eng_strategies e3 = strats"
    by (simp_all add: e3 e1_def submits_fields)
  show "eng_broker e3 = (eng_broker e)\<lparr>br_pending := br_pending (eng_broker e) @ map queue_entry (so @ os)\<rparr>"
    by (simp add: e3 e1_def submits_broker)
  have own: "\<forall>ord\<in>set os. eng_order_strategy_map e3 (ord_order_id ord) = Some (attributed_to sigs ord)"
    using d by (simp add: e3 submits_map_own)
  have risk: "\<forall>ord\<in>set so. eng_order_strategy_map e3 (ord_order_id ord) = Some ''__risk__''"
  proof
    fix ord assume o: "ord \<in> set so"
    with d have "ord_order_id ord \<notin> ord_order_id ` set os" by auto
    then have "eng_order_strategy_map e3 (ord_order_id ord) = eng_order_strategy_map e1 (ord_order_id ord)"
      by (simp add: e3 submits_map_other)
    also have "\<dots> = Some ''__risk__''"
      unfolding e1_def using d o by (intro submits_map_own) auto
    finally show "eng_order_strategy_map e3 (ord_order_id ord) = Some ''__risk__''" .
  qed
  show "map (stamp_of (eng_order_strategy_map e3)) (so @ os)
       = map (\<lambda>ord. ''__risk__'') so @ map (attributed_to sigs) os"
    using own risk by (simp add: stamp_of_def)
qed

lemma erase_eq_views:
  assumes "erase_ids e = erase_ids x"
  shows "eng_feed e = eng_feed x" "eng_strategies e = eng_strategies x"
    "eng_broker e = eng_broker x" "eng_risk_manager e = eng_risk_manager x"
    "open_positions_detail (eng_portfolio e) = open_positions_detail (eng_portfolio x)"
    "open_positions (eng_portfolio e) = open_positions (eng_portfolio x)"
    "equity (eng_portfolio e) = equity (eng_portfolio x)"
proof -
  have p: "strip_portfolio (eng_portfolio e) = strip_portfolio (eng_portfolio x)"
    using assms by (metis erase_ids_simps(5))
  show "eng_feed e = eng_feed x" using assms by (metis erase_ids_simps(1))
  show "eng_strategies e = eng_strategies x" using assms by (metis erase_ids_simps(2))
  show "eng_broker e = eng_broker x" using assms by (metis erase_ids_simps(3))
  show "eng_risk_manager e = eng_risk_manager x" using assms by (metis erase_ids_simps(4))
  show "open_positions_detail (eng_portfolio e) = open_positions_detail (eng_portfolio x)"
    using p by (metis strip_views(1))
  show "open_positions (eng_portfolio e) = open_positions (eng_portfolio x)"
    using p by (metis strip_views(2))
  show "equity (eng_portfolio e) = equity (eng_portfolio x)"
    using p by (metis strip_views(3))
qed

lemma stamped_ids: "stamped c tmpl ords \<Longrightarrow> map ord_order_id ords = ids_from c (length tmpl)"
  by (simp add: stamped_def)

lemma stamped_strip: "stamped c tmpl ords \<Longrightarrow> map strip_order ords = tmpl"
  by (simp add: stamped_def)

lemma market_fill_pending [simp]:
  "market_fill (b\<lparr>br_pending := q\<rparr>) me sid ord = market_fill b me sid ord"
  by (simp add: market_fill_def split: option.splits)

lemma engine_step_uniform:
  fixes x :: "'s engine"
  assumes px: "br_pending (eng_broker x) = []"
    and bx: "\<forall>strat\<in>set (eng_strategies x). id_blind strat"
  shows "\<exists>r. \<forall>e c. erase_ids e = erase_ids x \<longrightarrow>
           (case r of
              Inl err \<Rightarrow> engine_step e c tb = Inl err
            | Inr (y, n) \<Rightarrow>
                (\<exists>e'. engine_step e c tb = Inr (e', c + n) \<and> erase_ids e' = y
                      \<and> br_pending (eng_broker e') = []
                      \<and> (\<forall>strat\<in>set (eng_strategies e'). id_blind strat)
                      \<and> map tr_order_id (pf_trades (eng_portfolio e'))
                          = map tr_order_id (pf_trades (eng_portfolio e)) @ ids_from c n))"
proof -
  obtain ts me where tb: "tb = (ts, me)" by (cases tb)
  let ?b = "eng_broker x"
  have "uniform me (\<lambda>c. Inr (check_stop_conditions (open_positions_detail (eng_portfolio x)) me c))"
    by (rule check_stop_conditions_uniform)
  then obtain tso where tso: "\<forall>ord\<in>set tso. fillable me ord"
    and so: "\<forall>c. \<exists>ords. check_stop_conditions (open_positions_detail (eng_portfolio x)) me c
                  = (ords, c + length tso) \<and> stamped c tso ords"
    unfolding uniform_def by auto
  obtain strats sigs where rs: "run_strategies (eng_feed x) ts me (eng_strategies x) = (strats, sigs)"
    by (cases "run_strategies (eng_feed x) ts me (eng_strategies x)")
  have bs: "\<forall>strat\<in>set strats. id_blind strat"
    using run_strategies_blind[OF bx, of "eng_feed x" ts me] rs by simp
  let ?ps = "\<lambda>c. process_signals (eng_risk_manager x) sigs me (eng_feed x) (equity (eng_portfolio x))
                     (open_positions (eng_portfolio x)) c"
  have "uniform me ?ps" by (rule process_signals_uniform)
  then consider (err) err where "\<forall>c. ?ps c = Inl err"
    | (ok) tos where "\<forall>ord\<in>set tos. fillable me ord"
        "\<forall>c. \<exists>ords. ?ps c = Inr (ords, c + length tos) \<and> stamped c tos ords"
    unfolding uniform_def by blast
  then show ?thesis
  proof cases
    case err
    have "\<forall>e c. erase_ids e = erase_ids x \<longrightarrow> engine_step e c tb = Inl err"
    proof (intro allI impI)
      fix e :: "'s engine" and c
      assume ex: "erase_ids e = erase_ids x"
      note v = erase_eq_views[OF ex]
      from so obtain ords where o: "check_stop_conditions (open_positions_detail (eng_portfolio e)) me c
                  = (ords, c + length tso)" unfolding v by blast
      have "submit_phase e c ts me = Inl err"
        using submit_phase_unfold[OF o, of ts strats sigs] rs err by (simp add: v)
      then show "engine_step e c tb = Inl err" by (simp add: engine_step_def tb)
    qed
    then show ?thesis by (intro exI[of _ "Inl err"]) simp
  next
    case ok
    let ?fills = "map (\<lambda>ord. strip_fill (market_fill ?b me ''__risk__'' ord)) tso
                   @ map (\<lambda>ord. strip_fill (market_fill ?b me (attributed_to sigs ord) ord)) tos"
    let ?y = "finish_bar (foldl apply_fill ((erase_ids x)\<lparr>eng_strategies := strats\<rparr>) ?fills) ts me"
    let ?n = "length tso + length tos"
    have "\<forall>e c. erase_ids e = erase_ids x \<longrightarrow>
        (\<exists>e'. engine_step e c tb = Inr (e', c + ?n) \<and> erase_ids e' = ?y
              \<and> br_pending (eng_broker e') = []
              \<and> (\<forall>strat\<in>set (eng_strategies e'). id_blind strat)
              \<and> map tr_order_id (pf_trades (eng_portfolio e'))
                  = map tr_order_id (pf_trades (eng_portfolio e)) @ ids_from c ?n)"
    proof (intro allI impI)
      fix e :: "'s engine" and c
      assume ex: "erase_ids e = erase_ids x"
      note v = erase_eq_views[OF ex]
      from so obtain sos where o: "check_stop_conditions (open_positions_detail (eng_portfolio e)) me c
                  = (sos, c + length tso)" and st1: "stamped c tso sos" unfolding v by blast
      from ok(2) obtain oss where r: "?ps (c + length tso) = Inr (oss, c + length tso + length tos)"
        and st2: "stamped (c + length tso) tos oss" by blast
      define e3 where "e3 = foldl (\<lambda>e ord. engine_submit e ord (attributed_to sigs ord))
                 ((foldl (\<lambda>e ord. engine_submit e ord ''__risk__'') e sos)\<lparr>eng_strategies := strats\<rparr>) oss"
      have sp: "submit_phase e c ts me = Inr (e3, c + ?n)"
        using submit_phase_unfold[OF o, of ts strats sigs] rs r by (simp add: v e3_def add.assoc)
      have ids: "map ord_order_id (sos @ oss) = ids_from c ?n"
        using st1 st2 by (simp add: stamped_ids ids_from_add)
      then have d: "distinct (map ord_order_id (sos @ oss))" by (simp only: distinct_ids_from)
      note t = two_rounds[OF d, where e = e and sigs = sigs and strats = strats, folded e3_def]
      have fl: "\<forall>ord\<in>set (sos @ oss). fillable me ord"
        using stamped_fillable[OF st1 tso] stamped_fillable[OF st2 ok(1)] by auto
      have pend: "br_pending (eng_broker e3) = map queue_entry (sos @ oss)"
        using t(5) px by (simp add: v)
      let ?f = "map (\<lambda>ord. market_fill (eng_broker e3) me (stamp_of (eng_order_strategy_map e3) ord) ord) (sos @ oss)"
      let ?e' = "finish_bar (foldl apply_fill (e3\<lparr>eng_broker := (eng_broker e3)\<lparr>br_pending := []\<rparr>\<rparr>) ?f) ts me"
      have fp: "fill_phase e3 ts me = Inr ?e'"
        by (rule fill_phase_fillable[OF pend fl])
      have step: "engine_step e c tb = Inr (?e', c + ?n)"
        by (simp add: engine_step_def tb sp fp)
      have b3: "eng_broker e3\<lparr>br_pending := []\<rparr> = ?b" using t(5) px by (simp add: v)
      have f_eq: "?f = map (\<lambda>ord. market_fill (eng_broker e3) me ''__risk__'' ord) sos
                     @ map (\<lambda>ord. market_fill (eng_broker e3) me (attributed_to sigs ord) ord) oss"
      proof -
        have "?f = map (\<lambda>(sid, ord). market_fill (eng_broker e3) me sid ord)
                     (zip (map (stamp_of (eng_order_strategy_map e3)) (sos @ oss)) (sos @ oss))"
          by (simp add: zip_map1 zip_same_conv_map comp_def)
        also have "\<dots> = map (\<lambda>(sid, ord). market_fill (eng_broker e3) me sid ord)
                     (zip (map (\<lambda>ord. ''__risk__'') sos @ map (attributed_to sigs) oss) (sos @ oss))"
          by (simp only: t(6))
        also have "\<dots> = map (\<lambda>ord. market_fill (eng_broker e3) me ''__risk__'' ord) sos
                     @ map (\<lambda>ord. market_fill (eng_broker e3) me (attributed_to sigs ord) ord) oss"
          by (simp add: zip_map1 zip_same_conv_map comp_def)
        finally show ?thesis .
      qed
      have strip_f: "map strip_fill ?f = ?fills"
      proof -
        have mf: "\<And>sid ord. market_fill (eng_broker e3) me sid ord = market_fill ?b me sid ord"
          by (simp add: t(5) v)
        have 1: "map (\<lambda>ord. strip_fill (market_fill ?b me ''__risk__'' ord)) sos
               = map (\<lambda>ord. strip_fill (market_fill ?b me ''__risk__'' ord)) (map strip_order sos)"
          using market_fill_strip[of ?b me "''__risk__''"] by (simp add: comp_def)
        have 2: "map (\<lambda>ord. strip_fill (market_fill ?b me (attributed_to sigs ord) ord)) oss
               = map (\<lambda>ord. strip_fill (market_fill ?b me (attributed_to sigs ord) ord)) (map strip_order oss)"
          using market_fill_strip[of ?b me] by (simp add: comp_def attributed_to_strip)
        show ?thesis
          unfolding f_eq using 1 2 by (simp add: mf comp_def stamped_strip[OF st1] stamped_strip[OF st2])
      qed
      have be3: "\<forall>strat\<in>set (eng_strategies (e3\<lparr>eng_broker := (eng_broker e3)\<lparr>br_pending := []\<rparr>\<rparr>)). id_blind strat"
        using bs t(4) by simp
      have er0: "erase_ids (e3\<lparr>eng_broker := (eng_broker e3)\<lparr>br_pending := []\<rparr>\<rparr>)
                  = (erase_ids x)\<lparr>eng_strategies := strats\<rparr>"
      proof -
        have "erase_ids (e3\<lparr>eng_broker := (eng_broker e3)\<lparr>br_pending := []\<rparr>\<rparr>)
            = (erase_ids e)\<lparr>eng_strategies := strats\<rparr>"
          using t(1-4) b3 by (simp add: erase_ids_def v)
        then show ?thesis by (simp add: ex)
      qed
      have er: "erase_ids ?e' = ?y"
        by (simp only: finish_bar_erase apply_fills_erase[OF be3] strip_f er0)
      have pe: "br_pending (eng_broker ?e') = []" by simp
      have bl: "\<forall>strat\<in>set (eng_strategies ?e'). id_blind strat"
        using apply_fills_blind[OF be3, of ?f] by (simp only: finish_bar_simps)
      have fid: "map fill_order_id ?f = map ord_order_id (sos @ oss)"
        using fl by (auto simp: market_fill_id)
      have tr: "map tr_order_id (pf_trades (eng_portfolio ?e'))
                  = map tr_order_id (pf_trades (eng_portfolio e)) @ ids_from c ?n"
      proof -
        have p3: "eng_portfolio (e3\<lparr>eng_broker := (eng_broker e3)\<lparr>br_pending := []\<rparr>\<rparr>) = eng_portfolio e"
          using t(1) by simp
        have "map tr_order_id (pf_trades (eng_portfolio ?e'))
            = map tr_order_id (pf_trades (eng_portfolio e)) @ map fill_order_id ?f"
          by (simp only: finish_bar_simps apply_fills_trade_ids p3)
        then show ?thesis by (simp only: fid ids)
      qed
      show "\<exists>e'. engine_step e c tb = Inr (e', c + ?n) \<and> erase_ids e' = ?y
              \<and> br_pending (eng_broker e') = []
              \<and> (\<forall>strat\<in>set (eng_strategies e'). id_blind strat)
              \<and> map tr_order_id (pf_trades (eng_portfolio e'))
                  = map tr_order_id (pf_trades (eng_portfolio e)) @ ids_from c ?n"
        using step er pe bl tr by blast
    qed
    then show ?thesis by (intro exI[of _ "Inr (?y, ?n)"]) simp
  qed
qed

subsection \<open>The loop over the bars\<close>

lemma id_uniformI_error:
  "(\<And>e c. erase_ids e = erase_ids x \<Longrightarrow> F e c = Inl err) \<Longrightarrow> id_uniform x F"
  unfolding id_uniform_def by blast

lemma id_uniformI_result:
  "(\<And>e c. erase_ids e = erase_ids x \<Longrightarrow>
      \<exists>e'. F e c = Inr (e', c + n) \<and> erase_ids e' = y
            \<and> br_pending (eng_broker e') = []
            \<and> (\<forall>strat\<in>set (eng_strategies e'). id_blind strat)
            \<and> map tr_order_id (pf_trades (eng_portfolio e'))
                = map tr_order_id (pf_trades (eng_portfolio e)) @ ids_from c n)
   \<Longrightarrow> id_uniform x F"
  unfolding id_uniform_def by blast

lemma engine_step_id_uniform:
  fixes x :: "'s engine"
  assumes px: "br_pending (eng_broker x) = []"
    and bx: "\<forall>strat\<in>set (eng_strategies x). id_blind strat"
  shows "id_uniform x (\<lambda>e c. engine_step e c tb)"
proof -
  from engine_step_uniform[OF px bx, of tb] obtain r where
    r: "\<forall>e c. erase_ids e = erase_ids x \<longrightarrow>
           (case r of
              Inl err \<Rightarrow> engine_step e c tb = Inl err
            | Inr (y, n) \<Rightarrow>
                (\<exists>e'. engine_step e c tb = Inr (e', c + n) \<and> erase_ids e' = y
                      \<and> br_pending (eng_broker e') = []
                      \<and> (\<forall>strat\<in>set (eng_strategies e'). id_blind strat)
                      \<and> map tr_order_id (pf_trades (eng_portfolio e'))
                          = map tr_order_id (pf_trades (eng_portfolio e)) @ ids_from c n))" ..
  show ?thesis
  proof (cases r)
    case (Inl err)
    with r show ?thesis by (intro id_uniformI_error[of x _ err]) simp
  next
    case (Inr yn)
    obtain y n where "yn = (y, n)" by (cases yn)
    with r Inr show ?thesis by (intro id_uniformI_result[of x _ n y]) simp
  qed
qed

lemma id_uniformE:
  assumes "id_uniform x F"
  obtains (error) err where "\<And>e c. erase_ids e = erase_ids x \<Longrightarrow> F e c = Inl err"
    | (result) y n where "\<And>e c. erase_ids e = erase_ids x \<Longrightarrow>
      \<exists>e'. F e c = Inr (e', c + n) \<and> erase_ids e' = y
            \<and> br_pending (eng_broker e') = []
            \<and> (\<forall>strat\<in>set (eng_strategies e'). id_blind strat)
            \<and> map tr_order_id (pf_trades (eng_portfolio e'))
                = map tr_order_id (pf_trades (eng_portfolio e)) @ ids_from c n"
proof -
  from assms consider
    (a) "\<exists>err. \<forall>e c. erase_ids e = erase_ids x \<longrightarrow> F e c = Inl err"
    | (b) "\<exists>y n. \<forall>e c. erase_ids e = erase_ids x \<longrightarrow>
            (\<exists>e'. F e c = Inr (e', c + n) \<and> erase_ids e' = y
                  \<and> br_pending (eng_broker e') = []
                  \<and> (\<forall>strat\<in>set (eng_strategies e'). id_blind strat)
                  \<and> map tr_order_id (pf_trades (eng_portfolio e'))
                      = map tr_order_id (pf_trades (eng_portfolio e)) @ ids_from c n)"
    unfolding id_uniform_def by blast
  then show thesis
  proof cases
    case a
    then obtain err where "\<forall>e c. erase_ids e = erase_ids x \<longrightarrow> F e c = Inl err" ..
    then have "\<And>e c. erase_ids e = erase_ids x \<Longrightarrow> F e c = Inl err" by simp
    then show thesis by (rule error)
  next
    case b
    then obtain y n where "\<forall>e c. erase_ids e = erase_ids x \<longrightarrow>
            (\<exists>e'. F e c = Inr (e', c + n) \<and> erase_ids e' = y
                  \<and> br_pending (eng_broker e') = []
                  \<and> (\<forall>strat\<in>set (eng_strategies e'). id_blind strat)
                  \<and> map tr_order_id (pf_trades (eng_portfolio e'))
                      = map tr_order_id (pf_trades (eng_portfolio e)) @ ids_from c n)" by blast
    then have "\<And>e c. erase_ids e = erase_ids x \<Longrightarrow>
            (\<exists>e'. F e c = Inr (e', c + n) \<and> erase_ids e' = y
                  \<and> br_pending (eng_broker e') = []
                  \<and> (\<forall>strat\<in>set (eng_strategies e'). id_blind strat)
                  \<and> map tr_order_id (pf_trades (eng_portfolio e'))
                      = map tr_order_id (pf_trades (eng_portfolio e)) @ ids_from c n)" by simp
    then show thesis by (rule result)
  qed
qed

lemma run_bars_id_uniform:
  fixes x :: "'s engine"
  assumes "br_pending (eng_broker x) = []"
    and "\<forall>strat\<in>set (eng_strategies x). id_blind strat"
  shows "id_uniform x (\<lambda>e c. run_bars e c tbs)"
  using assms
proof (induction tbs arbitrary: x)
  case Nil
  show ?case
  proof (rule id_uniformI_result[of x _ 0 "erase_ids x"])
    fix e :: "'s engine" and c
    assume ex: "erase_ids e = erase_ids x"
    note v = erase_eq_views[OF ex]
    have "run_bars e c [] = Inr (e, c + 0)" by simp
    moreover have "br_pending (eng_broker e) = []" using Nil.prems(1) by (simp only: v)
    moreover have "\<forall>strat\<in>set (eng_strategies e). id_blind strat" using Nil.prems(2) by (simp only: v)
    moreover have "map tr_order_id (pf_trades (eng_portfolio e))
        = map tr_order_id (pf_trades (eng_portfolio e)) @ ids_from c 0" by simp
    ultimately show "\<exists>e'. run_bars e c [] = Inr (e', c + 0) \<and> erase_ids e' = erase_ids x
            \<and> br_pending (eng_broker e') = []
            \<and> (\<forall>strat\<in>set (eng_strategies e'). id_blind strat)
            \<and> map tr_order_id (pf_trades (eng_portfolio e'))
                = map tr_order_id (pf_trades (eng_portfolio e)) @ ids_from c 0"
      using ex by blast
  qed
next
  case (Cons tb tbs)
  from engine_step_id_uniform[OF Cons.prems, of tb]
  show ?case
  proof (cases rule: id_uniformE)
    case (error err)
    show ?thesis
    proof (rule id_uniformI_error[of x _ err])
      fix e :: "'s engine" and c
      assume "erase_ids e = erase_ids x"
      then have "engine_step e c tb = Inl err" by (rule error)
      then show "run_bars e c (tb # tbs) = Inl err" by simp
    qed
  next
    case (result y n)
    from result[of x 0] obtain x1 where x1: "erase_ids x1 = y" "br_pending (eng_broker x1) = []"
      "\<forall>strat\<in>set (eng_strategies x1). id_blind strat" by blast
    from Cons.IH[OF x1(2,3)]
    show ?thesis
    proof (cases rule: id_uniformE)
      case (error err)
      show ?thesis
      proof (rule id_uniformI_error[of x _ err])
        fix e :: "'s engine" and c
        assume "erase_ids e = erase_ids x"
        from result[OF this, of c] obtain e1 where
          e1: "engine_step e c tb = Inr (e1, c + n)" "erase_ids e1 = y" by blast
        have "erase_ids e1 = erase_ids x1" using e1(2) x1(1) by simp
        then have "run_bars e1 (c + n) tbs = Inl err" by (rule error)
        with e1(1) show "run_bars e c (tb # tbs) = Inl err" by simp
      qed
    next
      case r2: (result z m)
      show ?thesis
      proof (rule id_uniformI_result[of x _ "n + m" z])
        fix e :: "'s engine" and c
        assume "erase_ids e = erase_ids x"
        from result[OF this, of c] obtain e1 where
          e1: "engine_step e c tb = Inr (e1, c + n)" "erase_ids e1 = y"
            "map tr_order_id (pf_trades (eng_portfolio e1))
                = map tr_order_id (pf_trades (eng_portfolio e)) @ ids_from c n" by blast
        have "erase_ids e1 = erase_ids x1" using e1(2) x1(1) by simp
        from r2[OF this, of "c + n"] obtain e' where
          e': "run_bars e1 (c + n) tbs = Inr (e', c + n + m)" "erase_ids e' = z"
            "br_pending (eng_broker e') = []" "\<forall>strat\<in>set (eng_strategies e'). id_blind strat"
            "map tr_order_id (pf_trades (eng_portfolio e'))
                = map tr_order_id (pf_trades (eng_portfolio e1)) @ ids_from (c + n) m" by blast
        have run: "run_bars e c (tb # tbs) = Inr (e', c + (n + m))"
          using e1(1) e'(1) by (simp add: add.assoc)
        have ids: "map tr_order_id (pf_trades (eng_portfolio e'))
                = map tr_order_id (pf_trades (eng_portfolio e)) @ ids_from c (n + m)"
          by (simp only: e'(5) e1(3) ids_from_add append_assoc)
        show "\<exists>e'. run_bars e c (tb # tbs) = Inr (e', c + (n + m)) \<and> erase_ids e' = z
            \<and> br_pending (eng_broker e') = []
            \<and> (\<forall>strat\<in>set (eng_strategies e'). id_blind strat)
            \<and> map tr_order_id (pf_trades (eng_portfolio e'))
                = map tr_order_id (pf_trades (eng_portfolio e)) @ ids_from c (n + m)"
          using run e'(2,3,4) ids by blast
      qed
    qed
  qed
qed

subsection \<open>A run of three bars\<close>

lemma demo_iter:
  "feed_iter demo_feed
     = [(1, [(''A'', demo_bar 1 100 101 99 100)]), (2, [(''A'', demo_bar 2 100 100 97 98)]),
        (3, [(''A'', demo_bar 3 98 99 97 98)])]"
  by (simp add: feed_iter_def demo_feed_def feed_index_def bar_row_def row_event_def demo_bar_def)

lemma demo_equity: "equity (eng_portfolio demo_engine) = 100000"
  "open_positions (eng_portfolio demo_engine) = []"
  "open_positions_detail (eng_portfolio demo_engine) = []"
  "eng_feed demo_engine = demo_feed" "eng_strategies demo_engine = [buy_once]"
  "eng_risk_manager demo_engine = capped_manager False"
  by (simp_all add: demo_engine_def new_engine_def new_portfolio_def equity_def open_positions_def
        open_positions_detail_def)

lemma demo_signals:
  "run_strategies demo_feed ts me [buy_once]
     = ([buy_once], if ts = 1 then [long_signal ts ''A'' (Some 98)] else [])"
  by (simp add: buy_once_def)

lemma demo_risk:
  "process_signals (capped_manager False) [long_signal 1 ''A'' (Some 98)]
     [(''A'', demo_bar 1 100 101 99 100)] demo_feed 100000 [] c = Inr ([demo_order c], c + 1)"
  by (simp add: capped_manager_def long_signal_def process_signal_def demo_bar_def demo_feed_def
        history_def bar_row_def slice_from_def compute_atr_def fixed_fraction_size_def py_or_def
        new_order_def next_id_def open_longs_def demo_order_def)

lemma demo_submit:
  "submit_phase demo_engine c 1 [(''A'', demo_bar 1 100 101 99 100)]
     = Inr (engine_submit demo_engine (demo_order c) ''strat'', c + 1)"
proof -
  have cs: "check_stop_conditions (open_positions_detail (eng_portfolio demo_engine))
              [(''A'', demo_bar 1 100 101 99 100)] c = ([], c)"
    by (simp add: demo_equity)
  have rs: "run_strategies (eng_feed demo_engine) 1 [(''A'', demo_bar 1 100 101 99 100)]
              (eng_strategies demo_engine) = ([buy_once], [long_signal 1 ''A'' (Some 98)])"
    by (simp add: demo_equity buy_once_def)
  have upd: "demo_engine\<lparr>eng_strategies := [buy_once]\<rparr> = demo_engine"
    by (simp add: demo_engine_def new_engine_def)
  have att: "attributed_to [long_signal 1 ''A'' (Some 98)] (demo_order c) = ''strat''"
    by (simp add: attributed_to_def long_signal_def demo_order_def)
  show ?thesis
    unfolding submit_phase_unfold[OF cs rs] demo_equity demo_risk
    by (simp add: upd att)
qed

lemma demo_fillable: "fillable [(''A'', demo_bar 1 100 101 99 100)] (demo_order c)"
  by (simp add: fillable_def demo_order_def)

lemma demo_market_fill:
  "market_fill (new_broker (FixedSlippage 5) (PercentCommission (1 / 1000)) 1)
      [(''A'', demo_bar 1 100 101 99 100)] ''strat'' (demo_order c) = demo_fill c"
  by (simp add: market_fill_def demo_order_def demo_bar_def new_broker_def FixedSlippage_def
        PercentCommission_def demo_fill_def)

lemma demo_on_fill: "on_fill (new_portfolio 100000) (demo_fill c) = demo_ledger c []"
  by (simp add: on_fill_def process_buy_def record_trade_def new_portfolio_def demo_fill_def
        demo_ledger_def demo_position_def demo_trade_def Let_def)

lemma demo_mark:
  "mark_to_market (demo_ledger c curve) ts [(''A'', demo_bar ts opn hi lo cls)]
     = (demo_ledger c (curve @ [demo_snapshot ts cls]), 37996999 / 400 + 50 * cls)"
  by (simp add: mark_to_market_def demo_ledger_def demo_position_def demo_bar_def mark_price_def
        market_value_def unrealized_pnl_def demo_trade_def demo_snapshot_def Let_def)

lemma demo_process_bar:
  "process_bar (eng_broker (engine_submit demo_engine (demo_order c) ''strat''))
      [(''A'', demo_bar 1 100 101 99 100)]
      (eng_order_strategy_map (engine_submit demo_engine (demo_order c) ''strat''))
     = Inr (eng_broker demo_engine, [demo_fill c],
            [Filled ((demo_order c)\<lparr>ord_status := FILLED\<rparr>) (demo_fill c)])"
  by (simp add: engine_submit_def submit_def demo_engine_def new_engine_def new_broker_def
        process_bar_def process_item_def try_fill_def demo_order_def demo_bar_def
        FixedSlippage_def PercentCommission_def demo_fill_def)

lemma demo_fill_phase:
  "fill_phase (engine_submit demo_engine (demo_order c) ''strat'') 1
      [(''A'', demo_bar 1 100 101 99 100)] = Inr (holding c [demo_snapshot 1 100])"
proof -
  have af: "apply_fill ((engine_submit demo_engine (demo_order c) ''strat'')\<lparr>eng_broker := eng_broker demo_engine\<rparr>)
              (demo_fill c)
          = holding c []"
    by (simp add: apply_fill_def engine_submit_def holding_def demo_engine_def new_engine_def
          demo_on_fill buy_once_def demo_order_def)
  show ?thesis
    unfolding fill_phase_def demo_process_bar
    by (simp add: af) (simp add: holding_def demo_mark[where curve = "[]", simplified])
qed

lemma demo_bar_1:
  "engine_step demo_engine c (1, [(''A'', demo_bar 1 100 101 99 100)])
     = Inr (holding c [demo_snapshot 1 100], c + 1)"
  by (simp add: engine_step_def demo_submit demo_fill_phase)

lemma holding_fields:
  "eng_portfolio (holding c curve) = demo_ledger c curve"
  "eng_feed (holding c curve) = demo_feed"
  "eng_strategies (holding c curve) = [buy_once]"
  "eng_risk_manager (holding c curve) = capped_manager False"
  "eng_broker (holding c curve) = new_broker (FixedSlippage 5) (PercentCommission (1 / 1000)) 1"
  by (simp_all add: holding_def demo_engine_def new_engine_def)

text \<open>The position of the ledger carries no stop: the sweep emits nothing, whatever the bar.\<close>

lemma demo_sweep:
  "check_stop_conditions (open_positions_detail (demo_ledger c curve))
     [(''A'', demo_bar ts opn hi lo cls)] k = ([], k)"
  by (simp add: open_positions_detail_def demo_ledger_def demo_position_def check_position_def
        stop_hit_def take_profit_hit_def)

lemma demo_quiet_bar:
  assumes "ts \<noteq> 1"
  shows "engine_step (holding c curve) k (ts, [(''A'', demo_bar ts opn hi lo cls)])
     = Inr (holding c (curve @ [demo_snapshot ts cls]), k)"
proof -
  have cs: "check_stop_conditions (open_positions_detail (eng_portfolio (holding c curve)))
              [(''A'', demo_bar ts opn hi lo cls)] k = ([], k)"
    by (simp add: holding_fields demo_sweep)
  have rs: "run_strategies (eng_feed (holding c curve)) ts [(''A'', demo_bar ts opn hi lo cls)]
              (eng_strategies (holding c curve)) = ([buy_once], [])"
    using assms by (simp add: holding_fields buy_once_def)
  have upd: "(holding c curve)\<lparr>eng_strategies := [buy_once]\<rparr> = holding c curve"
    by (simp add: holding_def demo_engine_def new_engine_def)
  have sp: "submit_phase (holding c curve) k ts [(''A'', demo_bar ts opn hi lo cls)]
              = Inr (holding c curve, k)"
    unfolding submit_phase_unfold[OF cs rs] by (simp add: upd)
  have pb: "process_bar (eng_broker (holding c curve)) [(''A'', demo_bar ts opn hi lo cls)]
              (eng_order_strategy_map (holding c curve))
            = Inr (eng_broker (holding c curve), [], [])"
    by (simp add: process_bar_def holding_fields new_broker_def)
  have fp: "fill_phase (holding c curve) ts [(''A'', demo_bar ts opn hi lo cls)]
              = Inr (holding c (curve @ [demo_snapshot ts cls]))"
    unfolding fill_phase_def pb
    by (simp add: holding_fields demo_mark) (simp add: holding_def demo_engine_def new_engine_def)
  show ?thesis by (simp add: engine_step_def sp fp)
qed

lemma demo_run:
  "run demo_engine c
     = Inr (holding c [demo_snapshot 1 100, demo_snapshot 2 98, demo_snapshot 3 98], c + 1)"
proof -
  have f: "eng_feed demo_engine = demo_feed" by (simp add: demo_engine_def new_engine_def)
  show ?thesis
    unfolding run_def f demo_iter
    by (simp add: demo_bar_1 demo_quiet_bar)
qed

subsection \<open>Positions never carry a stop\<close>

text \<open>
  \<^verbatim>\<open>on_fill\<close> creates positions without levels and does not call \<^verbatim>\<open>attach_stop_tp\<close>; nor does
  the engine. So the sweep of step 1 finds nothing to trigger.
\<close>

lemma set_update_subset: "set (AList.update k v ps) \<subseteq> insert (k, v) (set ps)"
  by (induction ps) auto

lemma set_delete_subset: "set (AList.delete k ps) \<subseteq> set ps"
  by (induction ps) auto

lemma no_stops_new: "no_stops (new_portfolio ic)"
  by (simp add: no_stops_def new_portfolio_def)

lemma no_stops_buy: "no_stops p \<Longrightarrow> no_stops (process_buy p fill)"
  unfolding no_stops_def process_buy_def record_trade_def Let_def
  using set_update_subset[of "fill_symbol fill" _ "pf_positions p"]
  by (auto split: option.splits dest!: map_of_SomeD) fastforce+

lemma no_stops_sell: "no_stops p \<Longrightarrow> no_stops (fst (process_sell p fill))"
  unfolding no_stops_def process_sell_def record_trade_def Let_def
  using set_update_subset[of "fill_symbol fill" _ "pf_positions p"]
        set_delete_subset[of "fill_symbol fill" "pf_positions p"]
  by (auto split: option.splits dest!: map_of_SomeD) fastforce+

lemma no_stops_on_fill: "no_stops p \<Longrightarrow> no_stops (on_fill p fill)"
  using no_stops_buy[of p fill] no_stops_sell[of p fill]
  by (simp add: no_stops_def on_fill_positions)

lemma no_stops_sweep:
  "no_stops p \<Longrightarrow> check_stop_conditions (open_positions_detail p) me c = ([], c)"
proof -
  have "\<forall>entry\<in>set ps. pos_stop_loss (snd entry) = None \<and> pos_take_profit (snd entry) = None \<Longrightarrow>
        check_stop_conditions
          (map (\<lambda>(s, pos). (s, \<lparr>pd_qty = pos_quantity pos, pd_entry = pos_avg_entry pos,
                           pd_stop_loss = pos_stop_loss pos,
                           pd_take_profit = pos_take_profit pos\<rparr>)) ps) me c = ([], c)" for ps
    by (induction ps) (auto simp: check_position_def stop_hit_def take_profit_hit_def Let_def
                           split: option.splits)
  then show "no_stops p \<Longrightarrow> check_stop_conditions (open_positions_detail p) me c = ([], c)"
    by (simp add: no_stops_def open_positions_detail_def)
qed

subsection \<open>What a bar does to the portfolio\<close>

lemma apply_fills_portfolio:
  "eng_portfolio (foldl apply_fill e fills) = foldl on_fill (eng_portfolio e) fills"
  by (induction fills arbitrary: e) (simp_all add: apply_fill_def)

lemma submit_phase_keeps:
  assumes "submit_phase e c ts me = Inr (e1, c1)"
  shows "eng_portfolio e1 = eng_portfolio e" "eng_feed e1 = eng_feed e"
    "eng_risk_manager e1 = eng_risk_manager e"
proof -
  obtain so c' where cs: "check_stop_conditions (open_positions_detail (eng_portfolio e)) me c = (so, c')"
    by (cases "check_stop_conditions (open_positions_detail (eng_portfolio e)) me c")
  obtain strats sigs where rs: "run_strategies (eng_feed e) ts me (eng_strategies e) = (strats, sigs)"
    by (cases "run_strategies (eng_feed e) ts me (eng_strategies e)")
  from assms obtain os where
    e1: "e1 = foldl (\<lambda>e ord. engine_submit e ord (attributed_to sigs ord))
                 ((foldl (\<lambda>e ord. engine_submit e ord ''__risk__'') e so)\<lparr>eng_strategies := strats\<rparr>) os"
    unfolding submit_phase_unfold[OF cs rs] by (auto split: sum.splits)
  show "eng_portfolio e1 = eng_portfolio e" "eng_feed e1 = eng_feed e"
    "eng_risk_manager e1 = eng_risk_manager e"
    by (simp_all add: e1 submits_fields)
qed

lemma fill_phase_portfolio:
  assumes "fill_phase e ts me = Inr e2"
  shows "\<exists>fills. eng_portfolio e2 = fst (mark_to_market (foldl on_fill (eng_portfolio e) fills) ts me)"
    and "eng_feed e2 = eng_feed e" and "eng_risk_manager e2 = eng_risk_manager e"
proof -
  from assms obtain b fills outs where
    e2: "e2 = (foldl apply_fill (e\<lparr>eng_broker := b\<rparr>) fills)
                \<lparr>eng_portfolio := fst (mark_to_market (eng_portfolio (foldl apply_fill (e\<lparr>eng_broker := b\<rparr>) fills)) ts me)\<rparr>"
    by (auto simp: fill_phase_def Let_def split_beta split: sum.splits)
  show "\<exists>fills. eng_portfolio e2 = fst (mark_to_market (foldl on_fill (eng_portfolio e) fills) ts me)"
    by (intro exI[of _ fills]) (simp add: e2 apply_fills_portfolio)
  show "eng_feed e2 = eng_feed e" "eng_risk_manager e2 = eng_risk_manager e"
    by (simp_all add: e2)
qed

lemma engine_step_portfolio:
  assumes "engine_step e c tb = Inr (e2, c2)"
  shows "\<exists>fills. eng_portfolio e2 = fst (mark_to_market (foldl on_fill (eng_portfolio e) fills) (fst tb) (snd tb))"
    and "eng_feed e2 = eng_feed e" and "eng_risk_manager e2 = eng_risk_manager e"
proof -
  from assms obtain e1 where sp: "submit_phase e c (fst tb) (snd tb) = Inr (e1, c2)"
    and fp: "fill_phase e1 (fst tb) (snd tb) = Inr e2"
    by (auto simp: engine_step_def split: sum.splits)
  show "\<exists>fills. eng_portfolio e2 = fst (mark_to_market (foldl on_fill (eng_portfolio e) fills) (fst tb) (snd tb))"
    using fill_phase_portfolio(1)[OF fp] submit_phase_keeps(1)[OF sp] by simp
  show "eng_feed e2 = eng_feed e" "eng_risk_manager e2 = eng_risk_manager e"
    using fill_phase_portfolio(2,3)[OF fp] submit_phase_keeps(2,3)[OF sp] by simp_all
qed


lemma no_stops_on_fills: "no_stops p \<Longrightarrow> no_stops (foldl on_fill p fills)"
  by (induction fills arbitrary: p) (simp_all add: no_stops_on_fill)

lemma no_stops_mark: "no_stops (fst (mark_to_market p ts me)) = no_stops p"
  by (simp add: no_stops_def mark_to_market_def Let_def split_beta)

lemma engine_step_no_stops:
  "no_stops (eng_portfolio e) \<Longrightarrow> engine_step e c tb = Inr (e2, c2) \<Longrightarrow> no_stops (eng_portfolio e2)"
  using engine_step_portfolio(1)[of e c tb e2 c2]
  by (auto simp: no_stops_mark no_stops_on_fills)

lemma run_bars_no_stops:
  "no_stops (eng_portfolio e) \<Longrightarrow> run_bars e c tbs = Inr (e2, c2) \<Longrightarrow> no_stops (eng_portfolio e2)"
proof (induction tbs arbitrary: e c)
  case (Cons tb tbs)
  from Cons.prems(2) obtain e1 c1 where s: "engine_step e c tb = Inr (e1, c1)"
    and r: "run_bars e1 c1 tbs = Inr (e2, c2)" by (auto split: sum.splits)
  from engine_step_no_stops[OF Cons.prems(1) s] Cons.IH r show ?case by blast
qed simp




subsection \<open>Fills on the bar of the order\<close>

text \<open>
  Claim C1: every fill of an order created during the processing of bar \<open>T\<close> has a
  timestamp greater than \<open>T\<close>; no order is filled on the bar on which it was created.
  In \<^verbatim>\<open>BacktestEngine.run\<close>, \<^verbatim>\<open>self.broker.process_bar(market_events, ...)\<close> of step 4 is
  called with the bars of the iteration that has just submitted the orders, and a MARKET
  order whose symbol has a bar fills at once (\<open>fill_phase_fillable\<close>). On the first bar
  of the three-bar run, steps 1 to 3 create the order with timestamp 1 and steps 4 to 6 of
  the same bar fill it: after that one iteration of the loop the trade log holds its fill,
  with timestamp 1.
\<close>

theorem order_filled_on_the_bar_that_created_it:
  "hd (feed_iter (eng_feed demo_engine)) = (1, [(''A'', demo_bar 1 100 101 99 100)])
   \<and> engine_step demo_engine 0 (1, [(''A'', demo_bar 1 100 101 99 100)])
       = Inr (holding 0 [demo_snapshot 1 100], 1)
   \<and> submit_phase demo_engine 0 1 [(''A'', demo_bar 1 100 101 99 100)]
     = Inr (engine_submit demo_engine (demo_order 0) ''strat'', 1)
   \<and> ord_timestamp (demo_order 0) = 1
   \<and> fill_phase (engine_submit demo_engine (demo_order 0) ''strat'') 1
         [(''A'', demo_bar 1 100 101 99 100)]
       = Inr (holding 0 [demo_snapshot 1 100])
   \<and> pf_trades (eng_portfolio (holding 0 [demo_snapshot 1 100])) = [demo_trade 0]
   \<and> tr_timestamp (demo_trade 0) = 1
   \<and> tr_order_id (demo_trade 0) = ord_order_id (demo_order 0)"
  using demo_submit [of 0] demo_fill_phase [of 0] demo_bar_1 [of 0]
  by (simp add: holding_fields demo_ledger_def demo_trade_def demo_order_def demo_equity demo_iter)

subsection \<open>The stop-loss path\<close>

text \<open>
  Claim C2: when a long position is open whose entry order carried a stop-loss level, a
  bar with a low at or below the level makes the engine emit a MARKET SELL for the full
  quantity, attributed to \<^verbatim>\<open>"__risk__"\<close>, which is filled and appears in the trade log.
  The order of the run carries the stop 98, but neither the fill nor \<^verbatim>\<open>on_fill\<close> carries
  it on, and \<^verbatim>\<open>attach_stop_tp\<close> is not called: the position has no stop. On the second
  bar, with its low at 97, the sweep emits nothing, and after the three bars the trade
  log holds the BUY alone.
\<close>

theorem stop_loss_level_never_reaches_position:
  "ord_stop_loss (demo_order 0) = Some 98
   \<and> bar_low (demo_bar 2 100 100 97 98) \<le> 98
   \<and> pf_positions (eng_portfolio (holding 0 [demo_snapshot 1 100])) = [(''A'', demo_position)]
   \<and> pos_quantity demo_position = 50 \<and> pos_stop_loss demo_position = None
   \<and> check_stop_conditions (open_positions_detail (eng_portfolio (holding 0 [demo_snapshot 1 100])))
         [(''A'', demo_bar 2 100 100 97 98)] 1 = ([], 1)
   \<and> run demo_engine 0 = Inr (holding 0 curve3, 1)
   \<and> pf_trades (eng_portfolio (holding 0 curve3)) = [demo_trade 0]
   \<and> tr_side (demo_trade 0) = ''BUY''"
proof -
  have sweep: "check_stop_conditions
         (open_positions_detail (eng_portfolio (holding 0 [demo_snapshot 1 100])))
         [(''A'', demo_bar 2 100 100 97 98)] 1 = ([], 1)"
    by (simp only: holding_fields demo_sweep)
  have pos: "pf_positions (eng_portfolio (holding 0 [demo_snapshot 1 100])) = [(''A'', demo_position)]"
    by (simp add: holding_fields demo_ledger_def)
  have trades: "pf_trades (eng_portfolio (holding 0 curve3)) = [demo_trade 0]"
    by (simp add: holding_fields demo_ledger_def)
  have run: "run demo_engine 0 = Inr (holding 0 curve3, 1)"
    using demo_run [of 0] by (simp add: curve3_def)
  have rest: "ord_stop_loss (demo_order 0) = Some 98" "bar_low (demo_bar 2 100 100 97 98) \<le> 98"
    "pos_quantity demo_position = 50" "pos_stop_loss demo_position = None"
    "tr_side (demo_trade 0) = ''BUY''"
    by (simp_all add: demo_order_def demo_bar_def demo_position_def demo_trade_def)
  show ?thesis using sweep pos trades run rest by blast
qed

subsection \<open>Two runs in one process\<close>

lemma format_id_2: "format_id (Suc (Suc 0)) = ''ORD-000002''"
  by (simp add: format_id_def zfill6_def digits.simps digit_char_def eval_nat_numeral)

text \<open>
  Claim C9: two runs on identical inputs within the same process produce identical equity
  curves and identical trade logs, the \<^verbatim>\<open>order_id\<close> column included.
  The counter is not reset between runs. The first run of the three bars starts with
  the counter at 0 and leaves it at 1; the second run starts there, and its one trade
  has another order id.
\<close>

theorem second_run_changes_order_ids:
  "run demo_engine 0 = Inr (holding 0 curve3, 1)
   \<and> run demo_engine 1 = Inr (holding 1 curve3, 2)
   \<and> map tr_order_id (pf_trades (eng_portfolio (holding 0 curve3))) = [''ORD-000001'']
   \<and> map tr_order_id (pf_trades (eng_portfolio (holding 1 curve3))) = [''ORD-000002'']
   \<and> pf_trades (eng_portfolio (holding 0 curve3)) \<noteq> pf_trades (eng_portfolio (holding 1 curve3))"
proof -
  have ids: "map tr_order_id (pf_trades (eng_portfolio (holding 0 curve3))) = [''ORD-000001'']"
    "map tr_order_id (pf_trades (eng_portfolio (holding 1 curve3))) = [''ORD-000002'']"
    by (simp_all add: holding_fields demo_ledger_def demo_trade_def format_id_1 format_id_2)
  have "pf_trades (eng_portfolio (holding 0 curve3)) \<noteq> pf_trades (eng_portfolio (holding 1 curve3))"
  proof
    assume "pf_trades (eng_portfolio (holding 0 curve3)) = pf_trades (eng_portfolio (holding 1 curve3))"
    then have "map tr_order_id (pf_trades (eng_portfolio (holding 0 curve3)))
                 = map tr_order_id (pf_trades (eng_portfolio (holding 1 curve3)))" by (rule arg_cong)
    then show False unfolding ids by simp
  qed
  moreover have "run demo_engine 0 = Inr (holding 0 curve3, 1)"
    using demo_run [of 0] by (simp add: curve3_def)
  moreover have "run demo_engine 1 = Inr (holding 1 curve3, 2)"
    using demo_run [of 1] by (simp add: curve3_def)
  ultimately show ?thesis using ids by blast
qed

text \<open>
  Claim C9, amended: two runs of the engine on identical inputs, with a fresh broker and
  strategies whose \<^verbatim>\<open>on_fill\<close> does not read the order id, produce identical equity
  curves and trade logs that are identical up to the \<^verbatim>\<open>order_id\<close> column, whatever the
  values \<open>c\<close> and \<open>c'\<close> of the counter at their start; both create the same number of
  orders, and the \<^verbatim>\<open>order_id\<close> column of each is the ids handed out from its own starting
  value on; when the first run has created an order and the second starts at another
  value of the counter, the two \<^verbatim>\<open>order_id\<close> columns differ.
\<close>

theorem runs_agree_up_to_order_ids:
  fixes strats :: "'s strategy list"
  assumes blind: "\<forall>strat\<in>set strats. id_blind strat"
    and empty: "br_pending b = []"
    and run1: "run (new_engine data strats ic b rm) c = Inr (e1, c1)"
  shows "\<exists>e2. run (new_engine data strats ic b rm) c' = Inr (e2, c' + (c1 - c))
          \<and> c \<le> c1
          \<and> pf_equity_curve (eng_portfolio e2) = pf_equity_curve (eng_portfolio e1)
          \<and> map strip_trade (pf_trades (eng_portfolio e2)) = map strip_trade (pf_trades (eng_portfolio e1))
          \<and> map tr_order_id (pf_trades (eng_portfolio e1)) = ids_from c (c1 - c)
          \<and> map tr_order_id (pf_trades (eng_portfolio e2)) = ids_from c' (c1 - c)
          \<and> (c < c1 \<and> c' \<noteq> c \<longrightarrow>
                map tr_order_id (pf_trades (eng_portfolio e2))
                  \<noteq> map tr_order_id (pf_trades (eng_portfolio e1)))"
proof -
  let ?x = "new_engine data strats ic b rm"
  have px: "br_pending (eng_broker ?x) = []" using empty by (simp add: new_engine_def)
  have bx: "\<forall>strat\<in>set (eng_strategies ?x). id_blind strat" using blind by (simp add: new_engine_def)
  have t0: "pf_trades (eng_portfolio ?x) = []" by (simp add: new_engine_def new_portfolio_def)
  have run_eq: "\<And>k. run ?x k = run_bars ?x k (feed_iter data)" by (simp add: run_def new_engine_def)
  from run_bars_id_uniform[OF px bx, of "feed_iter data"]
  show ?thesis
  proof (cases rule: id_uniformE)
    case (error err)
    from error[of ?x c] run1 show ?thesis by (simp add: run_eq)
  next
    case (result y n)
    from result[of ?x c] obtain ea where ea: "run_bars ?x c (feed_iter data) = Inr (ea, c + n)"
      "erase_ids ea = y"
      "map tr_order_id (pf_trades (eng_portfolio ea))
         = map tr_order_id (pf_trades (eng_portfolio ?x)) @ ids_from c n" by blast
    from ea(1) run1 have 1: "ea = e1" "c1 = c + n" by (simp_all add: run_eq)
    from result[of ?x c'] obtain e2 where e2: "run_bars ?x c' (feed_iter data) = Inr (e2, c' + n)"
      "erase_ids e2 = y"
      "map tr_order_id (pf_trades (eng_portfolio e2))
         = map tr_order_id (pf_trades (eng_portfolio ?x)) @ ids_from c' n" by blast
    have "erase_ids e2 = erase_ids e1" using ea(2) e2(2) 1 by simp
    then have sp: "strip_portfolio (eng_portfolio e2) = strip_portfolio (eng_portfolio e1)"
      by (metis erase_ids_simps(5))
    have curve: "pf_equity_curve (eng_portfolio e2) = pf_equity_curve (eng_portfolio e1)"
      using sp by (metis strip_portfolio_simps(3))
    have trades: "map strip_trade (pf_trades (eng_portfolio e2)) = map strip_trade (pf_trades (eng_portfolio e1))"
      using sp by (metis strip_portfolio_simps(7))
    have n: "c1 - c = n" using 1 by simp
    have ids1: "map tr_order_id (pf_trades (eng_portfolio e1)) = ids_from c n"
      using ea(3) 1 by (simp add: t0)
    have ids2: "map tr_order_id (pf_trades (eng_portfolio e2)) = ids_from c' n"
      using e2(3) by (simp add: t0)
    have differ: "c < c1 \<and> c' \<noteq> c \<longrightarrow>
                map tr_order_id (pf_trades (eng_portfolio e2))
                  \<noteq> map tr_order_id (pf_trades (eng_portfolio e1))"
    proof
      assume a: "c < c1 \<and> c' \<noteq> c"
      then have "0 < n" "c' \<noteq> c" using 1 by simp_all
      then have "ids_from c' n \<noteq> ids_from c n" by (rule ids_from_differ)
      then show "map tr_order_id (pf_trades (eng_portfolio e2))
                  \<noteq> map tr_order_id (pf_trades (eng_portfolio e1))"
        unfolding ids1 ids2 .
    qed
    have r2: "run ?x c' = Inr (e2, c' + (c1 - c))" using e2(1) by (simp add: run_eq n)
    have le: "c \<le> c1" using 1 by simp
    show ?thesis
      by (rule exI[of _ e2]) (intro conjI r2 le curve trades ids1[folded n] ids2[folded n] differ)
  qed
qed

lemma blind_buy_once: "id_blind buy_once"
  by (simp add: id_blind_def buy_once_def)

theorem runs_agree_up_to_order_ids_witness:
  "run demo_engine 1 = Inr (holding 1 curve3, 2)
   \<and> pf_equity_curve (eng_portfolio (holding 1 curve3)) = pf_equity_curve (eng_portfolio (holding 0 curve3))
   \<and> map strip_trade (pf_trades (eng_portfolio (holding 1 curve3)))
       = map strip_trade (pf_trades (eng_portfolio (holding 0 curve3)))
   \<and> map tr_order_id (pf_trades (eng_portfolio (holding 0 curve3))) = ids_from 0 1
   \<and> map tr_order_id (pf_trades (eng_portfolio (holding 1 curve3))) = ids_from 1 1
   \<and> map tr_order_id (pf_trades (eng_portfolio (holding 1 curve3)))
       \<noteq> map tr_order_id (pf_trades (eng_portfolio (holding 0 curve3)))"
proof -
  have blind: "\<forall>strat\<in>set [buy_once]. id_blind strat" by (simp add: blind_buy_once)
  have empty: "br_pending (new_broker (FixedSlippage 5) (PercentCommission (1 / 1000)) 1) = []"
    by (simp add: new_broker_def)
  have run0: "run (new_engine demo_feed [buy_once] 100000
                 (new_broker (FixedSlippage 5) (PercentCommission (1 / 1000)) 1) (capped_manager False)) 0
               = Inr (holding 0 curve3, 1)"
    using demo_run [of 0] by (simp add: demo_engine_def curve3_def)
  have run1: "run (new_engine demo_feed [buy_once] 100000
                 (new_broker (FixedSlippage 5) (PercentCommission (1 / 1000)) 1) (capped_manager False)) 1
               = Inr (holding 1 curve3, 2)"
    using demo_run [of 1] by (simp add: demo_engine_def curve3_def)
  from runs_agree_up_to_order_ids [OF blind empty run0, of 1] obtain e2 where
    e2: "run (new_engine demo_feed [buy_once] 100000
                 (new_broker (FixedSlippage 5) (PercentCommission (1 / 1000)) 1) (capped_manager False)) 1
           = Inr (e2, 1 + (1 - 0))"
      "pf_equity_curve (eng_portfolio e2) = pf_equity_curve (eng_portfolio (holding 0 curve3))"
      "map strip_trade (pf_trades (eng_portfolio e2))
         = map strip_trade (pf_trades (eng_portfolio (holding 0 curve3)))"
      "map tr_order_id (pf_trades (eng_portfolio (holding 0 curve3))) = ids_from 0 (1 - 0)"
      "map tr_order_id (pf_trades (eng_portfolio e2)) = ids_from 1 (1 - 0)"
      "(0::nat) < 1 \<and> (1::nat) \<noteq> 0 \<longrightarrow>
         map tr_order_id (pf_trades (eng_portfolio e2))
           \<noteq> map tr_order_id (pf_trades (eng_portfolio (holding 0 curve3)))"
    by blast
  from e2(1) run1 have is2: "e2 = holding 1 curve3" by simp
  from e2(6) have differ: "map tr_order_id (pf_trades (eng_portfolio (holding 1 curve3)))
           \<noteq> map tr_order_id (pf_trades (eng_portfolio (holding 0 curve3)))"
    unfolding is2 by simp
  from e2(1-5) differ show ?thesis unfolding is2 using demo_run [of 1] by (simp add: curve3_def)
qed




end
